theory Spec2Isabelle
  imports Complex_Main "HOL-Library.Multiset" "HOL-Library.Log_Nat"
begin

section \<open>Errors\<close>

text \<open>
  Every exception the modelled code can raise is a value. A function that may raise
  returns \<open>error + 'a\<close>, with \<open>Inl\<close> carrying the exception.
  \<^item> \<open>ValueError\<close>, \<open>TypeError\<close>, \<open>AssertionError\<close> carry the message of the raise site;
  \<^item> \<open>IndexError\<close> is a list read out of range, \<open>ZeroDivisionError\<close> a division by zero,
    \<open>OverflowError\<close> a float operation whose result is too large;
  \<^item> \<open>NoOCRReaderFound\<close> is the exception class of \<^verbatim>\<open>docquery/ocr_processor.py\<close>.
\<close>

datatype error =
    ValueError string
  | TypeError string
  | IndexError
  | ZeroDivisionError
  | OverflowError string
  | AssertionError string
  | NoOCRReaderFound string

text \<open>Running a fallible function over a list stops at the first exception.\<close>

fun map_err :: "('a \<Rightarrow> error + 'b) \<Rightarrow> 'a list \<Rightarrow> error + 'b list" where
  "map_err f [] = Inr []"
| "map_err f (x # xs) =
     (case f x of
        Inl e \<Rightarrow> Inl e
      | Inr y \<Rightarrow> (case map_err f xs of Inl e \<Rightarrow> Inl e | Inr ys \<Rightarrow> Inr (y # ys)))"

section \<open>Floating-point arithmetic\<close>

text \<open>
  Python floats are IEEE binary64 numbers. A finite float is a rational number; the two
  operations the code uses, the true division of two integers and the product of an
  integer with a float, return the exact result rounded to the nearest float, ties to
  the float with an even significand. \<open>round64 x\<close> is that rounding: the significand has
  53 bits, so the unit in the last place of \<open>x\<close> is \<open>2\<close> to the power
  \<open>\<lfloor>log\<^sub>2 \<bar>x\<bar>\<rfloor> - 52\<close>, and never below \<open>2\<close> to the \<open>- 1074\<close> (the subnormal numbers). The
  result is \<open>None\<close> when the rounded value reaches \<open>2\<close> to the \<open>1024\<close>: the operation
  overflows.
\<close>

definition round_half_even :: "rat \<Rightarrow> int" where
  "round_half_even x =
     (let f = \<lfloor>x\<rfloor>; r = x - of_int f
      in if r < 1 / 2 then f else if 1 / 2 < r then f + 1 else if even f then f else f + 1)"

text \<open>\<open>\<lfloor>log\<^sub>2 x\<rfloor>\<close> for a positive rational, from the bit lengths of its numerator and denominator.\<close>

definition ilog2 :: "rat \<Rightarrow> int" where
  "ilog2 x =
     (let (a, b) = quotient_of x; k = bitlen a - bitlen b
      in if 2 powi k \<le> x then k else k - 1)"

definition round64 :: "rat \<Rightarrow> rat option" where
  "round64 x =
     (if x = 0 then Some 0
      else
        (let q = max (ilog2 \<bar>x\<bar> - 52) (- 1074);
             y = of_int (round_half_even (x / 2 powi q)) * 2 powi q
         in if 2 powi 1024 \<le> \<bar>y\<bar> then None else Some y))"

text \<open>\<^verbatim>\<open>int(x)\<close> on a finite float truncates toward zero.\<close>

definition py_int :: "rat \<Rightarrow> int" where
  "py_int x = (if 0 \<le> x then \<lfloor>x\<rfloor> else \<lceil>x\<rceil>)"

section \<open>Box normalization\<close>

text \<open>
  The expression \<^verbatim>\<open>int(1000 * (c / d))\<close> that both \<^verbatim>\<open>normalize_box\<close> functions
  apply to each coordinate, for integers \<open>c\<close> and \<open>d\<close>. \<^verbatim>\<open>c / d\<close> raises
  ZeroDivisionError when \<open>d\<close> is zero and OverflowError when the quotient is too large
  for a float; otherwise it is the quotient rounded to a float. The product with 1000 is
  rounded again; when it overflows it is infinite, and \<^verbatim>\<open>int\<close> of it raises
  OverflowError.
\<close>

definition scaled :: "int \<Rightarrow> int \<Rightarrow> error + int" where
  "scaled c d =
     (if d = 0 then Inl ZeroDivisionError
      else
        (case round64 (of_int c / of_int d) of
           None \<Rightarrow> Inl (OverflowError ''integer division result too large for a float'')
         | Some q \<Rightarrow>
             (case round64 (1000 * q) of
                None \<Rightarrow> Inl (OverflowError ''cannot convert float infinity to integer'')
              | Some p \<Rightarrow> Inr (py_int p))))"

text \<open>\<^verbatim>\<open>int(1000 * (box[i] / d))\<close>: the read \<^verbatim>\<open>box[i]\<close> raises IndexError on a short list.\<close>

definition component :: "int list \<Rightarrow> nat \<Rightarrow> int \<Rightarrow> error + int" where
  "component box i d = (if i < length box then scaled (box ! i) d else Inl IndexError)"

text \<open>
  The list \<^verbatim>\<open>[int(1000 * (box[0] / width)), int(1000 * (box[1] / height)), ...]\<close>,
  evaluated left to right: the first component that raises ends the evaluation.
\<close>

definition scaled_components :: "int list \<Rightarrow> int \<Rightarrow> int \<Rightarrow> error + int list" where
  "scaled_components box width height =
     (case component box 0 width of
        Inl e \<Rightarrow> Inl e
      | Inr c0 \<Rightarrow>
          (case component box 1 height of
             Inl e \<Rightarrow> Inl e
           | Inr c1 \<Rightarrow>
               (case component box 2 width of
                  Inl e \<Rightarrow> Inl e
                | Inr c2 \<Rightarrow>
                    (case component box 3 height of
                       Inl e \<Rightarrow> Inl e
                     | Inr c3 \<Rightarrow> Inr [c0, c1, c2, c3]))))"

text \<open>\<^verbatim>\<open>normalize_box\<close> of \<^verbatim>\<open>docqa/ext/pipeline.py\<close>: the scaled components as they are.\<close>

definition normalize_box :: "int list \<Rightarrow> int \<Rightarrow> int \<Rightarrow> error + int list" where
  "normalize_box box width height = scaled_components box width height"

text \<open>
  \<^verbatim>\<open>OCRProcessor.normalize_box\<close> of \<^verbatim>\<open>docquery/ocr_processor.py\<close>: each scaled component
  \<open>c\<close> becomes \<^verbatim>\<open>max(min(c, 1000), 0)\<close>.
\<close>

definition OCRProcessor_normalize_box :: "int list \<Rightarrow> int \<Rightarrow> int \<Rightarrow> error + int list" where
  "OCRProcessor_normalize_box box width height =
     (case scaled_components box width height of
        Inl e \<Rightarrow> Inl e
      | Inr cs \<Rightarrow> Inr (map (\<lambda>c. max (min c 1000) 0) cs))"

text \<open>
  \<open>k\<close> is the float \<^verbatim>\<open>1000 * (c / d)\<close> truncated toward zero: the two operations do not
  overflow, and \<open>k\<close> is the integer of the sign of the product with
  \<open>\<bar>k\<bar> \<le> \<bar>product\<bar> < \<bar>k\<bar> + 1\<close>.
\<close>

definition truncated_product :: "int \<Rightarrow> int \<Rightarrow> int \<Rightarrow> bool" where
  "truncated_product c d k =
     (\<exists>q p. round64 (of_int c / of_int d) = Some q \<and> round64 (1000 * q) = Some p
        \<and> \<bar>of_int k\<bar> \<le> \<bar>p\<bar> \<and> \<bar>p\<bar> < \<bar>of_int k\<bar> + 1 \<and> 0 \<le> of_int k * p)"

text \<open>
  The formula as the specification words it, for comparison with the code: each
  component is \<open>round (1000 * coordinate / dimension)\<close>, then clamped to \<open>[0, 1000]\<close>.
\<close>

definition spec_normalize_box :: "int list \<Rightarrow> int \<Rightarrow> int \<Rightarrow> int list" where
  "spec_normalize_box box width height =
     map (\<lambda>c. max (min c 1000) 0)
       [round (1000 * real_of_int (box ! 0) / real_of_int width),
        round (1000 * real_of_int (box ! 1) / real_of_int height),
        round (1000 * real_of_int (box ! 2) / real_of_int width),
        round (1000 * real_of_int (box ! 3) / real_of_int height)]"

section \<open>Strings\<close>

text \<open>
  A Python string is a sequence of Unicode code points. \<open>str\<close> gives the code points of
  a literal. \<^verbatim>\<open>str.strip()\<close> removes leading and trailing whitespace; the whitespace
  characters are the code points for which \<^verbatim>\<open>str.isspace\<close> holds.
\<close>

type_synonym pystr = "nat list"

definition str :: "string \<Rightarrow> pystr" where
  "str s = map of_char s"

definition is_space :: "nat \<Rightarrow> bool" where
  "is_space c =
     ((0x09 \<le> c \<and> c \<le> 0x0D) \<or> (0x1C \<le> c \<and> c \<le> 0x20) \<or> c = 0x85 \<or> c = 0xA0
      \<or> c = 0x1680 \<or> (0x2000 \<le> c \<and> c \<le> 0x200A) \<or> c = 0x2028 \<or> c = 0x2029
      \<or> c = 0x202F \<or> c = 0x205F \<or> c = 0x3000)"

definition strip :: "pystr \<Rightarrow> pystr" where
  "strip s = rev (dropWhile is_space (rev (dropWhile is_space s)))"

text \<open>\<^verbatim>\<open>sep.join(xs)\<close>.\<close>

fun join :: "pystr \<Rightarrow> pystr list \<Rightarrow> pystr" where
  "join sep [] = []"
| "join sep [w] = w"
| "join sep (w # v # ws) = w @ sep @ join sep (v # ws)"

text \<open>Decimal rendering of an integer, as an f-string prints it.\<close>

definition digit_char :: "nat \<Rightarrow> char" where
  "digit_char n = ''0123456789'' ! n"

fun str_nat :: "nat \<Rightarrow> string" where
  "str_nat n = (if n < 10 then [digit_char n] else str_nat (n div 10) @ [digit_char (n mod 10)])"

declare str_nat.simps [simp del]

definition str_int :: "int \<Rightarrow> string" where
  "str_int i = (if i < 0 then CHR ''-'' # str_nat (nat (- i)) else str_nat (nat i))"

section \<open>OCR backends: filtering and normalizing the engine's output\<close>

text \<open>
  A decoded image, as far as the code reads it: \<^verbatim>\<open>image.size\<close> is (width, height);
  the pixels are what the external engine reads.
\<close>

record pil_image =
  im_size :: "int \<times> int"
  im_pixels :: "nat list"

text \<open>
  The dictionary \<^verbatim>\<open>pytesseract.image_to_data(..., output_type="dict")\<close> returns, with the
  five keys the code reads.
\<close>

record tesseract_data =
  d_text :: "pystr list"
  d_left :: "int list"
  d_top :: "int list"
  d_width :: "int list"
  d_height :: "int list"

text \<open>The external engine: image, \<^verbatim>\<open>lang\<close> and \<^verbatim>\<open>config\<close> to its output.\<close>

type_synonym image_to_data = "pil_image \<Rightarrow> string option \<Rightarrow> string option \<Rightarrow> tesseract_data"

text \<open>
  \<^verbatim>\<open>[idx for idx, word in enumerate(words) if not word.strip()]\<close>
\<close>

definition irrelevant_indices :: "pystr list \<Rightarrow> nat list" where
  "irrelevant_indices words = [idx. (idx, word) \<leftarrow> enumerate 0 words, strip word = []]"

text \<open>
  \<^verbatim>\<open>[x for idx, x in enumerate(xs) if idx not in irrelevant_indices]\<close>, the comprehension
  applied to the words and to each coordinate list.
\<close>

definition drop_irrelevant :: "nat list \<Rightarrow> 'a list \<Rightarrow> 'a list" where
  "drop_irrelevant irr xs = [x. (idx, x) \<leftarrow> enumerate 0 xs, idx \<notin> set irr]"

text \<open>
  (left, top, width, height) to (left, top, left + width, top + height);
  \<^verbatim>\<open>zip\<close> stops at the shortest list.
\<close>

definition actual_boxes :: "int list \<Rightarrow> int list \<Rightarrow> int list \<Rightarrow> int list \<Rightarrow> int list list" where
  "actual_boxes lefts tops widths heights =
     [[x, y, x + w, y + h]. (x, y, w, h) \<leftarrow> zip lefts (zip tops (zip widths heights))]"

definition words_boxes_mismatch :: error where
  "words_boxes_mismatch = AssertionError ''Not as many words as there are bounding boxes''"

text \<open>\<^verbatim>\<open>apply_tesseract\<close> of \<^verbatim>\<open>docqa/ext/pipeline.py\<close>.\<close>

definition apply_tesseract ::
  "image_to_data \<Rightarrow> pil_image \<Rightarrow> string option \<Rightarrow> string option
    \<Rightarrow> error + (pystr list \<times> int list list)" where
  "apply_tesseract image_to_data img lang tesseract_config =
     (let data = image_to_data img lang tesseract_config;
          irrelevant = irrelevant_indices (d_text data);
          words = drop_irrelevant irrelevant (d_text data);
          lefts = drop_irrelevant irrelevant (d_left data);
          tops = drop_irrelevant irrelevant (d_top data);
          widths = drop_irrelevant irrelevant (d_width data);
          heights = drop_irrelevant irrelevant (d_height data);
          boxes = actual_boxes lefts tops widths heights;
          (image_width, image_height) = im_size img
      in case map_err (\<lambda>box. normalize_box box image_width image_height) boxes of
           Inl e \<Rightarrow> Inl e
         | Inr normalized_boxes \<Rightarrow>
             if length words = length normalized_boxes then Inr (words, normalized_boxes)
             else Inl words_boxes_mismatch)"




text \<open>
  An OCR processor object: the attributes \<^verbatim>\<open>self.device\<close> and \<^verbatim>\<open>self.reader\<close>
  (\<open>'r\<close> is the external reader handle).
\<close>

record 'r ocr_processor =
  p_device :: "int option"
  p_reader :: "'r option"


text \<open>A name between apostrophes, as Python's messages print it.\<close>

definition quoted :: "string \<Rightarrow> string" where
  "quoted s = [CHR 0x27] @ s @ [CHR 0x27]"






text \<open>\<^verbatim>\<open>DummyProcessor.apply_ocr\<close>: raises whatever the image.\<close>

definition DummyProcessor_apply_ocr ::
  "'r ocr_processor \<Rightarrow> pil_image \<Rightarrow> error + (pystr list \<times> int list list)" where
  "DummyProcessor_apply_ocr self img =
     Inl (NoOCRReaderFound ''Unable to find any OCR engine and OCR extraction was requested'')"

section \<open>OCR backends: construction\<close>

text \<open>
  The two module-level flags of \<^verbatim>\<open>docquery/ocr_processor.py\<close>, set once at import by
  probing the optional dependencies.
\<close>

record ocr_flags =
  TESSERACT_AVAILABLE :: bool
  EASYOCR_AVAILABLE :: bool

datatype backend = TesseractProcessor | EasyOCRProcessor | DummyProcessor

text \<open>
  \<^verbatim>\<open>check_if_available\<close> of each class. The first component is what the call logs
  (\<^verbatim>\<open>logging.warning\<close>).
\<close>

definition check_if_available :: "ocr_flags \<Rightarrow> backend \<Rightarrow> string list \<times> (error + unit)" where
  "check_if_available flags cls =
     (case cls of
        TesseractProcessor \<Rightarrow>
          if \<not> TESSERACT_AVAILABLE flags then
            ([], Inl (NoOCRReaderFound
               (''Unable to use pytesseract (OCR will be unavailable). ''
                @ ''Install tesseract to process images with OCR.'')))
          else ([], Inr ())
      | EasyOCRProcessor \<Rightarrow>
          if \<not> EASYOCR_AVAILABLE flags then
            ([], Inl (NoOCRReaderFound
               (''Unable to use easyocr (OCR will be unavailable). ''
                @ ''Install easyocr to process images with OCR.'')))
          else ([], Inr ())
      | DummyProcessor \<Rightarrow> ([''Unable to find OCR processor might not be needed''], Inr ()))"

text \<open>
  \<^verbatim>\<open>OCRProcessor.__init__(self, device)\<close>, called with the positional arguments \<open>args\<close>
  (after \<^verbatim>\<open>self\<close>). \<^verbatim>\<open>device\<close> has no default, so Python binds exactly one argument or
  raises TypeError before the body runs. The body stores the device and runs the class's
  availability check.
\<close>

definition missing_device :: error where
  "missing_device =
     TypeError (''OCRProcessor.__init__() missing 1 required positional argument: ''
                @ quoted ''device'')"

definition OCRProcessor_init ::
  "ocr_flags \<Rightarrow> backend \<Rightarrow> int option list \<Rightarrow> string list \<times> (error + 'r ocr_processor)" where
  "OCRProcessor_init flags cls args =
     (case args of
        [] \<Rightarrow> ([], Inl missing_device)
      | [device] \<Rightarrow>
          (case check_if_available flags cls of
             (logged, Inl e) \<Rightarrow> (logged, Inl e)
           | (logged, Inr u) \<Rightarrow> (logged, Inr \<lparr>p_device = device, p_reader = None\<rparr>))
      | _ \<Rightarrow>
          ([], Inl (TypeError (''OCRProcessor.__init__() takes 2 positional arguments but ''
                     @ str_nat (length args + 1) @ '' were given''))))"

text \<open>
  The constructors of the three concrete classes. Each is \<^verbatim>\<open>def __init__(self)\<close> with the
  body \<^verbatim>\<open>super().__init__()\<close>, followed in \<^verbatim>\<open>EasyOCRProcessor\<close> and \<^verbatim>\<open>DummyProcessor\<close> by
  \<^verbatim>\<open>self.reader = None\<close>. \<open>construct flags cls args\<close> is the call \<^verbatim>\<open>cls(*args)\<close>.
\<close>

definition class_name :: "backend \<Rightarrow> string" where
  "class_name cls =
     (case cls of
        TesseractProcessor \<Rightarrow> ''TesseractProcessor''
      | EasyOCRProcessor \<Rightarrow> ''EasyOCRProcessor''
      | DummyProcessor \<Rightarrow> ''DummyProcessor'')"

definition construct ::
  "ocr_flags \<Rightarrow> backend \<Rightarrow> int option list \<Rightarrow> string list \<times> (error + 'r ocr_processor)" where
  "construct flags cls args =
     (if args \<noteq> [] then
        ([], Inl (TypeError (class_name cls @ ''.__init__() takes 1 positional argument but ''
                   @ str_nat (length args + 1) @ '' were given'')))
      else
        (case OCRProcessor_init flags cls [] of
           (logged, Inl e) \<Rightarrow> (logged, Inl e)
         | (logged, Inr self) \<Rightarrow>
             (logged,
              Inr (case cls of
                     TesseractProcessor \<Rightarrow> self
                   | _ \<Rightarrow> self\<lparr>p_reader := None\<rparr>))))"

section \<open>The pipeline: call parameters\<close>

text \<open>
  The keyword arguments of \<^verbatim>\<open>_sanitize_parameters\<close>; \<open>None\<close> is an argument left out.
\<close>

record call_kwargs =
  kw_padding :: "string option"
  kw_doc_stride :: "int option"
  kw_max_question_len :: "int option"
  kw_lang :: "string option"
  kw_tesseract_config :: "string option"
  kw_max_answer_len :: "int option"
  kw_max_seq_len :: "int option"
  kw_top_k :: "int option"
  kw_handle_impossible_answer :: "bool option"

text \<open>
  The two dictionaries the function fills. A key is set exactly when its argument is not
  \<open>None\<close>, so each dictionary is a record of optional entries.
\<close>

record preprocess_params =
  pre_padding :: "string option"
  pre_doc_stride :: "int option"
  pre_max_question_len :: "int option"
  pre_max_seq_len :: "int option"
  pre_lang :: "string option"
  pre_tesseract_config :: "string option"

record postprocess_params =
  post_top_k :: "int option"
  post_max_answer_len :: "int option"
  post_handle_impossible_answer :: "bool option"

text \<open>
  \<^verbatim>\<open>DocumentQuestionAnsweringPipeline._sanitize_parameters\<close>. The preprocessing entries
  cannot fail; \<^verbatim>\<open>top_k\<close> is checked before \<^verbatim>\<open>max_answer_len\<close>. The messages are the
  source's (the second one has no closing parenthesis there). The middle component of the
  result is the empty dictionary of forward parameters.
\<close>

definition sanitize_parameters ::
  "call_kwargs \<Rightarrow> error + (preprocess_params \<times> unit \<times> postprocess_params)" where
  "sanitize_parameters kw =
     (let preprocess_params =
            \<lparr>pre_padding = kw_padding kw, pre_doc_stride = kw_doc_stride kw,
             pre_max_question_len = kw_max_question_len kw, pre_max_seq_len = kw_max_seq_len kw,
             pre_lang = kw_lang kw, pre_tesseract_config = kw_tesseract_config kw\<rparr>
      in case (case kw_top_k kw of
                 None \<Rightarrow> Inr ()
               | Some top_k \<Rightarrow>
                   if top_k < 1 then
                     Inl (ValueError (''top_k parameter should be >= 1 (got ''
                            @ str_int top_k @ '')''))
                   else Inr ()) of
           Inl e \<Rightarrow> Inl e
         | Inr u \<Rightarrow>
             (case (case kw_max_answer_len kw of
                      None \<Rightarrow> Inr ()
                    | Some max_answer_len \<Rightarrow>
                        if max_answer_len < 1 then
                          Inl (ValueError (''max_answer_len parameter should be >= 1 (got ''
                                 @ str_int max_answer_len))
                        else Inr ()) of
                Inl e \<Rightarrow> Inl e
              | Inr u \<Rightarrow>
                  Inr (preprocess_params, (),
                       \<lparr>post_top_k = kw_top_k kw, post_max_answer_len = kw_max_answer_len kw,
                        post_handle_impossible_answer = kw_handle_impossible_answer kw\<rparr>)))"

text \<open>
  \<^verbatim>\<open>__call__\<close> hands the input to the host framework's \<^verbatim>\<open>Pipeline.__call__\<close>, whose
  contract is: sanitize the keyword arguments first, then run the stages (preprocess,
  forward, postprocess) with the resulting parameters. The stages are a parameter here:
  any function of the parameters and of the world \<open>'w\<close> they act on (the OCR engine, the
  model), returning the new world and the result.
\<close>

definition pipeline_call ::
  "call_kwargs \<Rightarrow> (preprocess_params \<Rightarrow> postprocess_params \<Rightarrow> 'w \<Rightarrow> 'w \<times> (error + 'a)) \<Rightarrow> 'w
    \<Rightarrow> 'w \<times> (error + 'a)" where
  "pipeline_call kw stages world =
     (case sanitize_parameters kw of
        Inl e \<Rightarrow> (world, Inl e)
      | Inr (preprocess_params, forward_params, postprocess_params) \<Rightarrow>
          stages preprocess_params postprocess_params world)"

section \<open>The pipeline: words and boxes of a document\<close>

text \<open>
  One input of \<^verbatim>\<open>preprocess\<close>: \<open>in_image\<close> is \<^verbatim>\<open>input.get("image", None)\<close> (a path, a
  URL or an image, of type \<open>'s\<close>), \<open>in_word_boxes\<close> is the value under the key
  \<^verbatim>\<open>"word_boxes"\<close> when the key is present, a list of (word, box) pairs.
\<close>

record 's qa_input =
  in_image :: "'s option"
  in_word_boxes :: "(pystr \<times> int list) list option"
  in_question :: pystr

text \<open>What the feature extractor returns, as far as the code reads it.\<close>

record image_features =
  fe_words :: "pystr list option"
  fe_boxes :: "int list list option"

text \<open>
  What \<^verbatim>\<open>preprocess\<close> reads from its surroundings: the two flags and \<^verbatim>\<open>load_image\<close> of
  the helper module, the pipeline's optional feature extractor, and the OCR engine.
\<close>

record 's pipeline_env =
  VISION_LOADED :: bool
  TESSERACT_LOADED :: bool
  load_image :: "'s \<Rightarrow> error + pil_image"
  feature_extractor :: "(pil_image \<Rightarrow> image_features) option"
  pytesseract_image_to_data :: image_to_data

definition pil_missing :: error where
  "pil_missing =
     ValueError (''If you provide an image, then the pipeline will run process it with PIL ''
       @ ''(Pillow), but PIL is not available. Install it with pip install Pillow.'')"

definition pytesseract_missing :: error where
  "pytesseract_missing =
     ValueError (''If you provide an image without word_boxes, then the pipeline will run OCR ''
       @ ''using Tesseract, but pytesseract is not available. ''
       @ ''Install it with pip install pytesseract.'')"

definition input_missing :: error where
  "input_missing =
     ValueError (''You must provide an image or word_boxes. If you provide an image, the ''
       @ ''pipeline will automatically run OCR to derive words and boxes'')"

text \<open>
  The part of \<^verbatim>\<open>preprocess\<close> that loads the image and resolves the words and boxes (up to
  the tokenizer checks). The first component of the result counts the calls of
  \<^verbatim>\<open>apply_tesseract\<close>.
\<close>

definition preprocess_words_boxes ::
  "'s pipeline_env \<Rightarrow> 's qa_input \<Rightarrow> string option \<Rightarrow> string option
    \<Rightarrow> nat \<times> (error + (pystr list \<times> int list list))" where
  "preprocess_words_boxes env input lang tesseract_config =
     (case (case in_image input of
              None \<Rightarrow> Inr (None, \<lparr>fe_words = None, fe_boxes = None\<rparr>)
            | Some src \<Rightarrow>
                if \<not> VISION_LOADED env then Inl pil_missing
                else
                  (case load_image env src of
                     Inl e \<Rightarrow> Inl e
                   | Inr img \<Rightarrow>
                       Inr (Some img,
                            (case feature_extractor env of
                               None \<Rightarrow> \<lparr>fe_words = None, fe_boxes = None\<rparr>
                             | Some extract \<Rightarrow> extract img)))) of
        Inl e \<Rightarrow> (0, Inl e)
      | Inr (loaded, features) \<Rightarrow>
          (case in_word_boxes input of
             Some word_boxes \<Rightarrow> (0, Inr (map fst word_boxes, map snd word_boxes))
           | None \<Rightarrow>
               (case (fe_words features, fe_boxes features) of
                  (Some words, Some boxes) \<Rightarrow> (0, Inr (words, boxes))
                | _ \<Rightarrow>
                    (case loaded of
                       Some img \<Rightarrow>
                         if \<not> TESSERACT_LOADED env then (0, Inl pytesseract_missing)
                         else (1, apply_tesseract (pytesseract_image_to_data env) img lang
                                    tesseract_config)
                     | None \<Rightarrow> (0, Inl input_missing)))))"

section \<open>The pipeline: postprocessing\<close>

text \<open>An answer dictionary, with its four keys \<^verbatim>\<open>score\<close>, \<^verbatim>\<open>answer\<close>, \<^verbatim>\<open>start\<close>, \<^verbatim>\<open>end\<close>.\<close>

record answer =
  ans_score :: real
  ans_answer :: pystr
  ans_start :: nat
  ans_end :: nat

text \<open>
  One chunk's model output, with the keys \<^verbatim>\<open>postprocess\<close> reads. A token's entry in
  \<open>out_word_ids\<close> is \<open>None\<close> for a question or special token.
\<close>

record model_output =
  out_words :: "pystr list"
  out_word_ids :: "nat option list"
  out_start_logits :: "real list"
  out_end_logits :: "real list"
  out_p_mask :: "bool list"
  out_attention_mask :: "nat list option"

text \<open>
  \<^verbatim>\<open>select_starts_ends\<close> of the helper module, with its eight arguments in the order of
  the call: start logits, end logits, mask, attention mask, running minimum null score,
  \<^verbatim>\<open>top_k\<close>, \<^verbatim>\<open>handle_impossible_answer\<close>, \<^verbatim>\<open>max_answer_len\<close>. It returns the selected
  start and end token indices, their scores and the updated minimum null score. The
  helper is a parameter of the model: the results below hold for every such function.
\<close>

type_synonym select_starts_ends =
  "real list \<Rightarrow> real list \<Rightarrow> bool list \<Rightarrow> nat list option \<Rightarrow> real \<Rightarrow> int \<Rightarrow> bool \<Rightarrow> int
    \<Rightarrow> error + (nat list \<times> nat list \<times> real list \<times> real)"

text \<open>What \<^verbatim>\<open>postprocess\<close> returns: one answer dictionary, or a list of them.\<close>

datatype result = Single answer | Many "answer list"

text \<open>\<^verbatim>\<open>xs[a : b + 1]\<close> for indices that are not negative.\<close>

definition slice_incl :: "'a list \<Rightarrow> nat \<Rightarrow> nat \<Rightarrow> 'a list" where
  "slice_incl xs a b = drop a (take (b + 1) xs)"

text \<open>\<^verbatim>\<open>xs[:k]\<close>: a negative \<open>k\<close> counts from the end.\<close>

definition slice_to :: "'a list \<Rightarrow> int \<Rightarrow> 'a list" where
  "slice_to xs k = (if 0 \<le> k then take (nat k) xs else take (length xs - nat (- k)) xs)"

text \<open>
  \<^verbatim>\<open>sorted(answers, key=lambda x: x["score"], reverse=True)\<close>: descending by score, and
  stable (answers of equal score keep their order).
\<close>

definition sorted_by_score :: "answer list \<Rightarrow> answer list" where
  "sorted_by_score answers = sort_key (\<lambda>x. - ans_score x) answers"

text \<open>
  The inner loop, \<^verbatim>\<open>for s, e, score in zip(starts, ends, scores)\<close>: a span is appended
  when both of its boundary tokens belong to a word, and skipped otherwise. Reading
  \<^verbatim>\<open>word_ids\<close> out of range raises.
\<close>

fun spans_loop ::
  "pystr list \<Rightarrow> nat option list \<Rightarrow> (nat \<times> nat \<times> real) list \<Rightarrow> answer list
    \<Rightarrow> error + answer list" where
  "spans_loop words word_ids [] answers = Inr answers"
| "spans_loop words word_ids ((s, e, score) # rest) answers =
     (if s < length word_ids \<and> e < length word_ids then
        (case (word_ids ! s, word_ids ! e) of
           (Some word_start, Some word_end) \<Rightarrow>
             spans_loop words word_ids rest
               (answers @ [\<lparr>ans_score = score,
                            ans_answer = join (str '' '') (slice_incl words word_start word_end),
                            ans_start = word_start, ans_end = word_end\<rparr>])
         | _ \<Rightarrow> spans_loop words word_ids rest answers)
      else Inl IndexError)"

text \<open>
  The outer loop, \<^verbatim>\<open>for output in model_outputs\<close>, with the two variables it updates:
  \<^verbatim>\<open>min_null_score\<close> and \<^verbatim>\<open>answers\<close>.
\<close>

fun outputs_loop ::
  "select_starts_ends \<Rightarrow> model_output list \<Rightarrow> int \<Rightarrow> bool \<Rightarrow> int \<Rightarrow> real \<Rightarrow> answer list
    \<Rightarrow> error + (real \<times> answer list)" where
  "outputs_loop select [] top_k handle_impossible_answer max_answer_len min_null_score answers =
     Inr (min_null_score, answers)"
| "outputs_loop select (output # rest) top_k handle_impossible_answer max_answer_len
       min_null_score answers =
     (case select (out_start_logits output) (out_end_logits output) (out_p_mask output)
             (out_attention_mask output) min_null_score top_k handle_impossible_answer
             max_answer_len of
        Inl e \<Rightarrow> Inl e
      | Inr (starts, ends, scores, min_null_score') \<Rightarrow>
          (case spans_loop (out_words output) (out_word_ids output)
                  (zip starts (zip ends scores)) answers of
             Inl e \<Rightarrow> Inl e
           | Inr answers' \<Rightarrow>
               outputs_loop select rest top_k handle_impossible_answer max_answer_len
                 min_null_score' answers'))"

text \<open>The synthetic candidate appended when \<^verbatim>\<open>handle_impossible_answer\<close> is set.\<close>

definition no_answer :: "real \<Rightarrow> answer" where
  "no_answer min_null_score =
     \<lparr>ans_score = min_null_score, ans_answer = [], ans_start = 0, ans_end = 0\<rparr>"

text \<open>
  \<^verbatim>\<open>DocumentQuestionAnsweringPipeline.postprocess\<close>. The defaults of the source are
  \<^verbatim>\<open>top_k=1\<close>, \<^verbatim>\<open>handle_impossible_answer=False\<close>, \<^verbatim>\<open>max_answer_len=15\<close>.
\<close>

definition postprocess ::
  "select_starts_ends \<Rightarrow> model_output list \<Rightarrow> int \<Rightarrow> bool \<Rightarrow> int \<Rightarrow> error + result" where
  "postprocess select model_outputs top_k handle_impossible_answer max_answer_len =
     (case outputs_loop select model_outputs top_k handle_impossible_answer max_answer_len
             1000000 [] of
        Inl e \<Rightarrow> Inl e
      | Inr (min_null_score, answers) \<Rightarrow>
          (let answers =
                 (if handle_impossible_answer then answers @ [no_answer min_null_score]
                  else answers);
               answers = slice_to (sorted_by_score answers) top_k
           in if length answers = 1 then Inr (Single (answers ! 0)) else Inr (Many answers)))"

text \<open>The answers a result holds, whichever its shape.\<close>

fun answers_of :: "result \<Rightarrow> answer list" where
  "answers_of (Single a) = [a]"
| "answers_of (Many as) = as"

subsection \<open>The steps of postprocessing, one at a time\<close>

text \<open>
  The candidates one chunk contributes: the selected spans whose two boundary tokens
  are tokens of the chunk and belong to a word, in the order of selection.
\<close>

definition chunk_candidates ::
  "pystr list \<Rightarrow> nat option list \<Rightarrow> (nat \<times> nat \<times> real) list \<Rightarrow> answer list" where
  "chunk_candidates words word_ids spans =
     List.map_filter
       (\<lambda>(s, e, score).
          if s < length word_ids \<and> e < length word_ids then
            (case (word_ids ! s, word_ids ! e) of
               (Some word_start, Some word_end) \<Rightarrow>
                 Some \<lparr>ans_score = score,
                       ans_answer = join (str '' '') (slice_incl words word_start word_end),
                       ans_start = word_start, ans_end = word_end\<rparr>
             | _ \<Rightarrow> None)
          else None)
       spans"

text \<open>
  The selections of all chunks: the helper is run on each chunk in turn with the minimum
  null score the previous chunk returned. The result is the list of selected spans per
  chunk and the last minimum null score.
\<close>

fun selections ::
  "select_starts_ends \<Rightarrow> model_output list \<Rightarrow> int \<Rightarrow> bool \<Rightarrow> int \<Rightarrow> real
    \<Rightarrow> error + ((nat \<times> nat \<times> real) list list \<times> real)" where
  "selections select [] top_k hia max_answer_len m = Inr ([], m)"
| "selections select (output # rest) top_k hia max_answer_len m =
     (case select (out_start_logits output) (out_end_logits output) (out_p_mask output)
             (out_attention_mask output) m top_k hia max_answer_len of
        Inl e \<Rightarrow> Inl e
      | Inr (starts, ends, scores, m') \<Rightarrow>
          (case selections select rest top_k hia max_answer_len m' of
             Inl e \<Rightarrow> Inl e
           | Inr (sels, m'') \<Rightarrow> Inr (zip starts (zip ends scores) # sels, m'')))"

text \<open>The candidates of all chunks, merged in chunk order.\<close>

definition merged_candidates ::
  "model_output list \<Rightarrow> (nat \<times> nat \<times> real) list list \<Rightarrow> answer list" where
  "merged_candidates model_outputs sels =
     concat (map (\<lambda>(output, spans). chunk_candidates (out_words output) (out_word_ids output) spans)
               (zip model_outputs sels))"

text \<open>
  No selected span survives: both boundary tokens of every span are tokens of the chunk,
  and at least one of them belongs to no word.
\<close>

definition no_span_survives :: "nat option list \<Rightarrow> (nat \<times> nat \<times> real) list \<Rightarrow> bool" where
  "no_span_survives word_ids spans =
     (\<forall>(s, e, score) \<in> set spans.
        s < length word_ids \<and> e < length word_ids
        \<and> (word_ids ! s = None \<or> word_ids ! e = None))"

section \<open>Example inputs\<close>

text \<open>Keyword arguments with \<^verbatim>\<open>top_k=0\<close> and nothing else.\<close>

definition example_kwargs :: call_kwargs where
  "example_kwargs =
     \<lparr>kw_padding = None, kw_doc_stride = None, kw_max_question_len = None, kw_lang = None,
      kw_tesseract_config = None, kw_max_answer_len = None, kw_max_seq_len = None,
      kw_top_k = Some 0, kw_handle_impossible_answer = None\<rparr>"

text \<open>
  An environment where everything is installed: images load as a \<open>200 x 100\<close> image, there
  is no feature extractor, and the OCR engine would read the single word \<open>OCR\<close>.
\<close>

definition example_env :: "string pipeline_env" where
  "example_env =
     \<lparr>VISION_LOADED = True, TESSERACT_LOADED = True,
      load_image = (\<lambda>src. Inr \<lparr>im_size = (200, 100), im_pixels = []\<rparr>),
      feature_extractor = None,
      pytesseract_image_to_data =
        (\<lambda>img lang config.
           \<lparr>d_text = [str ''OCR''], d_left = [0], d_top = [0], d_width = [100], d_height = [50]\<rparr>)\<rparr>"

text \<open>An input with an image and one explicit word box.\<close>

definition example_input :: "string qa_input" where
  "example_input =
     \<lparr>in_image = Some ''doc.png'', in_word_boxes = Some [(str ''Paris'', [10, 20, 30, 40])],
      in_question = str ''What is the capital of France?''\<rparr>"





text \<open>
  Two chunks of three tokens each (a classification token, one word token, a separator):
  only token 1 belongs to a word.
\<close>

definition example_output_paris :: model_output where
  "example_output_paris =
     \<lparr>out_words = [str ''Paris''], out_word_ids = [None, Some 0, None],
      out_start_logits = [1, 4, 0], out_end_logits = [2, 5, 0],
      out_p_mask = [False, False, True], out_attention_mask = None\<rparr>"

definition example_output_rome :: model_output where
  "example_output_rome =
     \<lparr>out_words = [str ''Rome''], out_word_ids = [None, Some 0, None],
      out_start_logits = [0, 3, 0], out_end_logits = [1, 3, 0],
      out_p_mask = [False, False, True], out_attention_mask = None\<rparr>"

text \<open>
  Three selection functions to instantiate the helper with. The first selects the span of
  token 1 alone, scored by the sum of its two logits, and lowers the minimum null score to
  the sum of the logits of token 0. The second selects only the span of the classification
  token. The third selects both spans, the word's first.
\<close>

definition select_word :: select_starts_ends where
  "select_word start_logits end_logits p_mask attention_mask min_null_score top_k
       handle_impossible_answer max_answer_len =
     Inr ([1], [1], [start_logits ! 1 + end_logits ! 1],
          min min_null_score (start_logits ! 0 + end_logits ! 0))"

definition select_cls :: select_starts_ends where
  "select_cls start_logits end_logits p_mask attention_mask min_null_score top_k
       handle_impossible_answer max_answer_len =
     Inr ([0], [0], [start_logits ! 0 + end_logits ! 0], min_null_score)"

definition select_word_and_cls :: select_starts_ends where
  "select_word_and_cls start_logits end_logits p_mask attention_mask min_null_score top_k
       handle_impossible_answer max_answer_len =
     Inr ([1, 0], [1, 0],
          [start_logits ! 1 + end_logits ! 1, start_logits ! 0 + end_logits ! 0],
          min_null_score)"

section \<open>The factory\<close>

text \<open>
  \<^verbatim>\<open>docqa/pipeline.py\<close> does not compile: line 70 of \<^verbatim>\<open>get_pipeline\<close> reads
  \<^verbatim>\<open>pipeline_kwargs = {device : device)}\<close>, where the closing parenthesis matches no opening
  one. Importing the module raises SyntaxError, so \<^verbatim>\<open>get_pipeline\<close> is never defined and
  cannot be called. What follows records what the statements before that line (lines 42
  to 68) would compute, as far as they do not depend on the host framework: the resolved
  checkpoint, revision and device, which configuration loader is used, the extra tokenizer
  arguments, and what is passed on as the model.
\<close>

definition CHECKPOINT :: string where
  "CHECKPOINT = ''impira/layoutlm-document-qa''"

definition REVISION :: string where
  "REVISION = ''02daaaf614d4ae08fa6a1d51693baaf7de819585''"

datatype config_loader = LayoutLMConfig | AutoConfig

datatype model_ref = LayoutLMForQuestionAnswering string "string option" | CheckpointName string

record resolution =
  res_checkpoint :: string
  res_revision :: "string option"
  res_device :: string
  res_config :: config_loader
  res_add_prefix_space :: "bool option"
  res_model :: model_ref

definition get_pipeline_resolution ::
  "bool \<Rightarrow> string option \<Rightarrow> string option \<Rightarrow> string option \<Rightarrow> resolution" where
  "get_pipeline_resolution cuda_is_available checkpoint revision device =
     (let checkpoint = (case checkpoint of None \<Rightarrow> CHECKPOINT | Some c \<Rightarrow> c);
          revision = (if checkpoint = CHECKPOINT \<and> revision = None then Some REVISION
                      else revision);
          device = (case device of
                      None \<Rightarrow> if cuda_is_available then ''cuda:0'' else ''cpu''
                    | Some d \<Rightarrow> d)
      in \<lparr>res_checkpoint = checkpoint, res_revision = revision, res_device = device,
          res_config = (if checkpoint = CHECKPOINT then LayoutLMConfig else AutoConfig),
          res_add_prefix_space = (if checkpoint = CHECKPOINT then Some True else None),
          res_model = (if checkpoint = CHECKPOINT
                       then LayoutLMForQuestionAnswering checkpoint revision
                       else CheckpointName checkpoint)\<rparr>)"

section \<open>Results: floating-point rounding\<close>

text \<open>
  Rounding to the nearest float is monotone against every bound that is itself a float
  at the precision of the rounded number: a multiple \<open>n * 2\<^sup>j\<close> of a power of two that is
  not finer than the unit in the last place. So a rounded value stays below such a bound
  and keeps its sign, and the operation does not overflow.
\<close>

lemma round_half_even_le: "x \<le> of_int n \<Longrightarrow> round_half_even x \<le> n"
proof -
  assume a: "x \<le> of_int n"
  then have f: "\<lfloor>x\<rfloor> \<le> n" by (simp add: floor_le_iff)
  show ?thesis
  proof (cases "\<lfloor>x\<rfloor> = n")
    case True
    then have "of_int n \<le> x" by (metis of_int_floor_le)
    with a have "x = of_int n" by simp
    then show ?thesis by (simp add: round_half_even_def)
  next
    case False
    with f have "\<lfloor>x\<rfloor> + 1 \<le> n" by simp
    then show ?thesis by (simp add: round_half_even_def Let_def)
  qed
qed

lemma round_half_even_ge: "of_int n \<le> x \<Longrightarrow> n \<le> round_half_even x"
proof -
  assume "of_int n \<le> x"
  then have "n \<le> \<lfloor>x\<rfloor>" by (simp add: le_floor_iff)
  then show ?thesis by (simp add: round_half_even_def Let_def)
qed

text \<open>\<open>ilog2 x\<close> is the integer \<open>k\<close> with \<open>2\<^sup>k \<le> x < 2\<^sup>k\<^sup>+\<^sup>1\<close>.\<close>

lemma ilog2_le:
  assumes "0 < x"
  shows "2 powi (ilog2 x) \<le> x"
proof -
  obtain a b where q: "quotient_of x = (a, b)" by (cases "quotient_of x")
  then have b: "0 < b" and x: "x = of_int a / of_int b"
    using quotient_of_denom_pos quotient_of_div by blast+
  have a: "0 < a" using assms b x by (simp add: zero_less_divide_iff)
  let ?k = "bitlen a - bitlen b"
  show ?thesis
  proof (cases "2 powi ?k \<le> x")
    case True
    then show ?thesis by (simp add: ilog2_def q)
  next
    case False
    have la: "(2::rat) powi (bitlen a - 1) \<le> of_int a"
    proof -
      have "(2::int) ^ nat (bitlen a - 1) \<le> a" using bitlen_bounds [OF a] by simp
      then have "(of_int ((2::int) ^ nat (bitlen a - 1)) :: rat) \<le> of_int a"
        by (simp only: of_int_le_iff)
      moreover have "0 \<le> bitlen a - 1" using bitlen_bounds [OF a] a
        by (metis bitlen_nonneg bitlen_eq_zero_iff diff_ge_0_iff_ge int_one_le_iff_zero_less not_le order_le_less)
      ultimately show ?thesis by (simp add: power_int_nonneg_exp)
    qed
    have lb: "of_int b \<le> (2::rat) powi (bitlen b)"
    proof -
      have "b < (2::int) ^ nat (bitlen b)" using bitlen_bounds [OF b] by simp
      then have "(of_int b :: rat) \<le> of_int ((2::int) ^ nat (bitlen b))"
        by (simp only: of_int_le_iff)
      then show ?thesis by (simp add: power_int_nonneg_exp bitlen_nonneg)
    qed
    have "(2::rat) powi (?k - 1) = 2 powi (bitlen a - 1) / 2 powi (bitlen b)"
      by (simp add: power_int_diff)
    also have "\<dots> \<le> of_int a / 2 powi (bitlen b)"
      using la by (simp add: divide_right_mono)
    also have "\<dots> \<le> of_int a / of_int b"
      using lb a b by (simp add: divide_left_mono)
    finally have "(2::rat) powi (?k - 1) \<le> x" by (simp only: x)
    moreover have "ilog2 x = ?k - 1" using False by (simp add: ilog2_def q)
    ultimately show ?thesis by simp
  qed
qed

lemma ilog2_less:
  assumes "0 < x" and "x < 2 powi K"
  shows "ilog2 x < K"
proof (rule ccontr)
  assume "\<not> ilog2 x < K"
  then have "K \<le> ilog2 x" by simp
  then have "(2::rat) powi K \<le> 2 powi (ilog2 x)" by (simp add: power_int_increasing)
  with ilog2_le [OF assms(1)] assms(2) show False by simp
qed

lemma ilog2_upper:
  assumes "0 < x"
  shows "x < 2 powi (ilog2 x + 1)"
proof -
  obtain a b where q: "quotient_of x = (a, b)" by (cases "quotient_of x")
  then have b: "0 < b" and x: "x = of_int a / of_int b"
    using quotient_of_denom_pos quotient_of_div by blast+
  have a: "0 < a" using assms b x by (simp add: zero_less_divide_iff)
  let ?k = "bitlen a - bitlen b"
  show ?thesis
  proof (cases "2 powi ?k \<le> x")
    case False
    then show ?thesis by (simp add: ilog2_def q)
  next
    case True
    have la: "of_int a < (2::rat) powi (bitlen a)"
    proof -
      have "a < (2::int) ^ nat (bitlen a)" using bitlen_bounds [OF a] by simp
      then have "(of_int a :: rat) < of_int ((2::int) ^ nat (bitlen a))"
        by (simp only: of_int_less_iff)
      then show ?thesis by (simp add: power_int_nonneg_exp bitlen_nonneg)
    qed
    have b1: "0 \<le> bitlen b - 1"
      using b by (metis bitlen_nonneg bitlen_eq_zero_iff diff_ge_0_iff_ge int_one_le_iff_zero_less not_le order_le_less)
    have lb: "(2::rat) powi (bitlen b - 1) \<le> of_int b"
    proof -
      have "(2::int) ^ nat (bitlen b - 1) \<le> b" using bitlen_bounds [OF b] by simp
      then have "(of_int ((2::int) ^ nat (bitlen b - 1)) :: rat) \<le> of_int b"
        by (simp only: of_int_le_iff)
      then show ?thesis using b1 by (simp add: power_int_nonneg_exp)
    qed
    have "x = of_int a / of_int b" by (rule x)
    also have "\<dots> < 2 powi (bitlen a) / of_int b"
      using la b by (simp add: divide_strict_right_mono)
    also have "\<dots> \<le> 2 powi (bitlen a) / 2 powi (bitlen b - 1)"
      using lb b by (intro divide_left_mono) simp_all
    also have "\<dots> = 2 powi (bitlen a - (bitlen b - 1))"
      by (rule power_int_diff [symmetric]) simp
    finally have "x < 2 powi (bitlen a - (bitlen b - 1))" .
    moreover have "bitlen a - (bitlen b - 1) = ?k + 1" by simp
    ultimately have "x < 2 powi (?k + 1)" by (simp only:)
    moreover have "ilog2 x = ?k" using True by (simp add: ilog2_def q)
    ultimately show ?thesis by simp
  qed
qed

lemma round64_bound:
  assumes "\<bar>x\<bar> \<le> of_int n * 2 powi j"
    and "\<bar>x\<bar> < 2 powi K" and "K - 53 \<le> j" and "- 1074 \<le> j"
    and "of_int n * (2::rat) powi j < 2 powi 1024"
  shows "\<exists>y. round64 x = Some y \<and> \<bar>y\<bar> \<le> of_int n * 2 powi j
           \<and> (0 \<le> x \<longrightarrow> 0 \<le> y) \<and> (x \<le> 0 \<longrightarrow> y \<le> 0)"
proof (cases "x = 0")
  case True
  then show ?thesis using assms(1) by (simp add: round64_def)
next
  case False
  define q where "q = max (ilog2 \<bar>x\<bar> - 52) (- 1074)"
  define m where "m = round_half_even (x / 2 powi q)"
  define N where "N = n * 2 ^ nat (j - q)"
  have "ilog2 \<bar>x\<bar> < K" using ilog2_less [of "\<bar>x\<bar>" K] False assms(2) by simp
  then have qj: "q \<le> j" using assms(3,4) by (simp add: q_def)
  have pq: "(0::rat) < 2 powi q" by simp
  have N: "(of_int N :: rat) = of_int n * 2 powi j / 2 powi q"
  proof -
    have "(2::rat) powi j / 2 powi q = 2 powi (j - q)" by (simp add: power_int_diff)
    also have "\<dots> = 2 ^ nat (j - q)" using qj by (simp add: power_int_nonneg_exp)
    finally have "(2::rat) ^ nat (j - q) = 2 powi j / 2 powi q" by simp
    then show ?thesis by (simp add: N_def)
  qed
  have up: "x / 2 powi q \<le> of_int N"
  proof -
    have "x \<le> of_int n * 2 powi j" using assms(1) by linarith
    then have "x / 2 powi q \<le> of_int n * 2 powi j / 2 powi q"
      by (rule divide_right_mono) simp
    then show ?thesis unfolding N .
  qed
  have lo: "of_int (- N) \<le> x / 2 powi q"
  proof -
    have "- (of_int n * 2 powi j) \<le> x" using assms(1) by linarith
    then have "- (of_int n * 2 powi j) / 2 powi q \<le> x / 2 powi q"
      by (rule divide_right_mono) simp
    then show ?thesis using N by simp
  qed
  have m1: "m \<le> N" unfolding m_def using up by (rule round_half_even_le)
  have m2: "- N \<le> m" unfolding m_def using lo by (rule round_half_even_ge)
  have "\<bar>of_int m :: rat\<bar> \<le> of_int N" using m1 m2 by (simp add: abs_le_iff)
  then have "\<bar>of_int m * 2 powi q :: rat\<bar> \<le> of_int N * 2 powi q"
    using pq by (simp add: abs_mult mult_right_mono)
  also have "\<dots> = of_int n * 2 powi j" unfolding N by simp
  finally have b: "\<bar>of_int m * 2 powi q :: rat\<bar> \<le> of_int n * 2 powi j" .
  have pos: "0 \<le> x \<Longrightarrow> (0::rat) \<le> of_int m * 2 powi q"
  proof -
    assume "0 \<le> x"
    then have "of_int 0 \<le> x / 2 powi q" by simp
    then have "0 \<le> m" unfolding m_def by (rule round_half_even_ge)
    then show ?thesis by simp
  qed
  have neg: "x \<le> 0 \<Longrightarrow> of_int m * 2 powi q \<le> (0::rat)"
  proof -
    assume "x \<le> 0"
    then have "x / 2 powi q \<le> of_int 0" by (simp add: divide_le_0_iff)
    then have "m \<le> 0" unfolding m_def by (rule round_half_even_le)
    then show ?thesis by (simp add: mult_le_0_iff)
  qed
  have "round64 x = Some (of_int m * 2 powi q)"
    using False b assms(5) by (simp add: round64_def Let_def q_def [symmetric] m_def [symmetric])
  then show ?thesis using b pos neg by simp
qed

text \<open>A value of at least \<open>2\<^sup>1\<^sup>0\<^sup>2\<^sup>4\<close> is beyond the largest float: rounding it overflows.\<close>

lemma round64_overflow:
  assumes "2 powi 1024 \<le> x"
  shows "round64 x = None"
proof -
  have x0: "0 < x"
  proof -
    have "(0::rat) < 2 powi 1024" by simp
    then show ?thesis using assms by linarith
  qed
  define e where "e = ilog2 x"
  have e: "1024 \<le> e"
  proof (rule ccontr)
    assume "\<not> 1024 \<le> e"
    then have "e + 1 \<le> 1024" by simp
    then have "(2::rat) powi (e + 1) \<le> 2 powi 1024" by (intro power_int_increasing) simp_all
    with ilog2_upper [OF x0] assms show False unfolding e_def by linarith
  qed
  have q: "max (ilog2 \<bar>x\<bar> - 52) (- 1074) = e - 52" using e x0 by (simp add: e_def)
  define m where "m = round_half_even (x / 2 powi (e - 52))"
  have "(2::rat) powi 52 = 2 powi e / 2 powi (e - 52)" by (simp add: power_int_diff)
  also have "\<dots> \<le> x / 2 powi (e - 52)"
    using ilog2_le [OF x0] unfolding e_def by (intro divide_right_mono) simp_all
  finally have "of_int (2 ^ 52) \<le> x / 2 powi (e - 52)" by (simp add: power_int_def)
  then have m: "2 ^ 52 \<le> m" unfolding m_def by (rule round_half_even_ge)
  then have "(of_int (2 ^ 52) :: rat) \<le> of_int m" by (simp only: of_int_le_iff)
  then have "(2::rat) powi 52 \<le> of_int m" by (simp add: power_int_def)
  then have "(2::rat) powi 52 * 2 powi (e - 52) \<le> of_int m * 2 powi (e - 52)"
    by (intro mult_right_mono) simp_all
  moreover have "(2::rat) powi 52 * 2 powi (e - 52) = 2 powi e"
  proof -
    have "(2::rat) powi (52 + (e - 52)) = 2 powi 52 * 2 powi (e - 52)"
      by (rule power_int_add) simp
    moreover have "52 + (e - 52) = e" by simp
    ultimately show ?thesis by (simp only:)
  qed
  moreover have "(2::rat) powi 1024 \<le> 2 powi e"
    using e by (intro power_int_increasing) simp_all
  ultimately have big: "(2::rat) powi 1024 \<le> of_int m * 2 powi (e - 52)" by linarith
  then have "(2::rat) powi 1024 \<le> \<bar>of_int m * 2 powi (e - 52)\<bar>" by linarith
  then show ?thesis using x0 q by (simp add: round64_def Let_def m_def)
qed

text \<open>\<^verbatim>\<open>int\<close> truncates toward zero.\<close>

lemma py_int_truncates:
  "\<bar>of_int (py_int p)\<bar> \<le> \<bar>p\<bar> \<and> \<bar>p\<bar> < \<bar>of_int (py_int p)\<bar> + 1 \<and> 0 \<le> of_int (py_int p) * p"
proof (cases "0 \<le> p")
  case True
  then have "0 \<le> \<lfloor>p\<rfloor>" by simp
  then have "\<bar>of_int \<lfloor>p\<rfloor> :: rat\<bar> = of_int \<lfloor>p\<rfloor>" by simp
  moreover have "of_int \<lfloor>p\<rfloor> \<le> p" "p < of_int \<lfloor>p\<rfloor> + 1" by linarith+
  moreover have "0 \<le> (of_int \<lfloor>p\<rfloor> :: rat)" using \<open>0 \<le> \<lfloor>p\<rfloor>\<close> by simp
  ultimately show ?thesis using True by (simp add: py_int_def)
next
  case False
  then have n: "p < 0" by simp
  then have c: "\<lceil>p\<rceil> \<le> 0" by (simp add: ceiling_le_iff)
  then have "\<bar>of_int \<lceil>p\<rceil> :: rat\<bar> = - of_int \<lceil>p\<rceil>" by simp
  moreover have "p \<le> of_int \<lceil>p\<rceil>" "of_int \<lceil>p\<rceil> - 1 < p" by linarith+
  moreover have "(of_int \<lceil>p\<rceil> :: rat) \<le> 0" using c by simp
  ultimately show ?thesis using n False
    by (simp add: py_int_def mult_nonpos_nonpos)
qed

section \<open>Results: box normalization\<close>

text \<open>
  A coordinate of at most \<open>2\<^sup>1\<^sup>0\<^sup>0\<^sup>0\<close> in absolute value and a non-zero dimension: neither
  the division nor the product overflows, and the component is the product truncated
  toward zero.
\<close>

lemma scaled_returns:
  assumes d: "d \<noteq> 0" and c: "\<bar>c\<bar> \<le> 2 ^ 1000"
  shows "\<exists>k. scaled c d = Inr k \<and> truncated_product c d k"
proof -
  let ?x = "(of_int c :: rat) / of_int d"
  have d1: "(1::rat) \<le> \<bar>of_int d\<bar>"
  proof -
    have "1 \<le> \<bar>d\<bar>" using d by simp
    then have "(of_int 1 :: rat) \<le> of_int \<bar>d\<bar>" by (simp only: of_int_le_iff)
    then show ?thesis by simp
  qed
  have c1: "\<bar>of_int c :: rat\<bar> \<le> 2 ^ 1000"
  proof -
    have "(of_int \<bar>c\<bar> :: rat) \<le> of_int (2 ^ 1000)" using c by (simp only: of_int_le_iff)
    then show ?thesis by simp
  qed
  have "\<bar>?x\<bar> = \<bar>of_int c\<bar> / \<bar>of_int d\<bar>" by simp
  also have "\<dots> \<le> \<bar>of_int c\<bar> / 1" using d1 by (intro divide_left_mono) auto
  finally have x: "\<bar>?x\<bar> \<le> 2 ^ 1000" using c1 by simp
  have p1000: "(2::rat) powi 1000 = 2 ^ 1000" by (simp add: power_int_def)
  have "\<exists>q. round64 ?x = Some q \<and> \<bar>q\<bar> \<le> of_int 1 * 2 powi 1000
           \<and> (0 \<le> ?x \<longrightarrow> 0 \<le> q) \<and> (?x \<le> 0 \<longrightarrow> q \<le> 0)"
  proof (rule round64_bound [where K = 1001])
    show "\<bar>?x\<bar> \<le> of_int 1 * 2 powi 1000" using x by (simp add: power_int_def)
    show "\<bar>?x\<bar> < 2 powi 1001" using x by (simp add: power_int_def)
    show "(1001::int) - 53 \<le> 1000" by simp
    show "- 1074 \<le> (1000::int)" by simp
    show "of_int 1 * (2::rat) powi 1000 < 2 powi 1024" by (simp add: power_int_def)
  qed
  then obtain q where q: "round64 ?x = Some q" and qb: "\<bar>q\<bar> \<le> 2 ^ 1000"
    by (auto simp: power_int_def)
  have "\<exists>p. round64 (1000 * q) = Some p \<and> \<bar>p\<bar> \<le> of_int 1000 * 2 powi 1000
           \<and> (0 \<le> 1000 * q \<longrightarrow> 0 \<le> p) \<and> (1000 * q \<le> 0 \<longrightarrow> p \<le> 0)"
  proof (rule round64_bound [where K = 1010])
    show "\<bar>1000 * q\<bar> \<le> of_int 1000 * 2 powi 1000"
      using qb by (simp add: power_int_def abs_mult)
    show "\<bar>1000 * q\<bar> < 2 powi 1010" using qb by (simp add: power_int_def abs_mult)
    show "(1010::int) - 53 \<le> 1000" by simp
    show "- 1074 \<le> (1000::int)" by simp
    show "of_int 1000 * (2::rat) powi 1000 < 2 powi 1024" by (simp add: power_int_def)
  qed
  then obtain p where p: "round64 (1000 * q) = Some p" by blast
  have "scaled c d = Inr (py_int p)" using d q p by (simp add: scaled_def)
  moreover have "truncated_product c d (py_int p)"
    unfolding truncated_product_def using q p py_int_truncates [of p] by blast
  ultimately show ?thesis by blast
qed

text \<open>A coordinate inside the image scales into \<open>[0, 1000]\<close> without any clamping.\<close>

lemma scaled_in_range:
  assumes "0 \<le> c" "c \<le> d" "0 < d"
  shows "\<exists>k. scaled c d = Inr k \<and> 0 \<le> k \<and> k \<le> 1000"
proof -
  let ?x = "(of_int c :: rat) / of_int d"
  have x0: "0 \<le> ?x" using assms by simp
  have x1: "?x \<le> 1" using assms by simp
  have "\<exists>q. round64 ?x = Some q \<and> \<bar>q\<bar> \<le> of_int 1 * 2 powi 0
           \<and> (0 \<le> ?x \<longrightarrow> 0 \<le> q) \<and> (?x \<le> 0 \<longrightarrow> q \<le> 0)"
  proof (rule round64_bound [where K = 1])
    show "\<bar>?x\<bar> \<le> of_int 1 * 2 powi 0" using x0 x1 by simp
    show "\<bar>?x\<bar> < 2 powi 1" using x0 x1 by simp
    show "(1::int) - 53 \<le> 0" by simp
    show "- 1074 \<le> (0::int)" by simp
    show "of_int 1 * (2::rat) powi 0 < 2 powi 1024" by (simp add: power_int_def)
  qed
  then obtain q where q: "round64 ?x = Some q" and q0: "0 \<le> q" and q1: "q \<le> 1"
    using x0 by auto
  have "\<exists>p. round64 (1000 * q) = Some p \<and> \<bar>p\<bar> \<le> of_int 1000 * 2 powi 0
           \<and> (0 \<le> 1000 * q \<longrightarrow> 0 \<le> p) \<and> (1000 * q \<le> 0 \<longrightarrow> p \<le> 0)"
  proof (rule round64_bound [where K = 10])
    show "\<bar>1000 * q\<bar> \<le> of_int 1000 * 2 powi 0" using q0 q1 by simp
    show "\<bar>1000 * q\<bar> < 2 powi 10" using q0 q1 by (simp add: power_int_def)
    show "(10::int) - 53 \<le> 0" by simp
    show "- 1074 \<le> (0::int)" by simp
    show "of_int 1000 * (2::rat) powi 0 < 2 powi 1024" by (simp add: power_int_def)
  qed
  then obtain p where p: "round64 (1000 * q) = Some p" and p0: "0 \<le> p" and p1: "p \<le> 1000"
    using q0 by auto
  have "scaled c d = Inr \<lfloor>p\<rfloor>" using assms q p p0 by (simp add: scaled_def py_int_def)
  moreover have "0 \<le> \<lfloor>p\<rfloor>" using p0 by simp
  moreover have "\<lfloor>p\<rfloor> \<le> 1000" using p1 by (simp add: floor_le_iff)
  ultimately show ?thesis by blast
qed

text \<open>
  The float steps on concrete coordinates. \<open>201 / 200\<close> is not a float: the nearest one
  lies just below \<open>1.005\<close>, the product with 1000 rounds to the float just below \<open>1005\<close>,
  and the component is \<open>1004\<close>, one less than the exact quotient truncated.
\<close>

lemma scaled_zero: "d \<noteq> 0 \<Longrightarrow> scaled 0 d = Inr 0"
  by (simp add: scaled_def round64_def py_int_def)

lemma scaled_3_32: "scaled 3 32 = Inr 93"
  by code_simp

lemma scaled_2048_1024: "scaled 2048 1024 = Inr 2000"
  by code_simp

lemma scaled_100_200: "scaled 100 200 = Inr 500"
  by code_simp

lemma scaled_50_100: "scaled 50 100 = Inr 500"
  by code_simp

lemma scaled_201_200: "scaled 201 200 = Inr 1004"
  by code_simp

text \<open>A component whose quotient is beyond the largest float raises OverflowError.\<close>

lemma scaled_overflow:
  assumes "0 < d" and "2 ^ 1024 * d \<le> c"
  shows "scaled c d = Inl (OverflowError ''integer division result too large for a float'')"
proof -
  have "(of_int (2 ^ 1024 * d) :: rat) \<le> of_int c" using assms(2) by (simp only: of_int_le_iff)
  then have "(2::rat) ^ 1024 * of_int d \<le> of_int c" by simp
  then have "(2::rat) ^ 1024 \<le> of_int c / of_int d"
    using assms(1) by (simp add: pos_le_divide_eq)
  then have "(2::rat) powi 1024 \<le> of_int c / of_int d" by (simp add: power_int_def)
  then have "round64 (of_int c / of_int d) = None" by (rule round64_overflow)
  then show ?thesis using assms(1) by (simp add: scaled_def)
qed

lemma scaled_components_Inr:
  assumes "scaled l width = Inr c0" "scaled t height = Inr c1"
    "scaled r width = Inr c2" "scaled b height = Inr c3"
  shows "scaled_components [l, t, r, b] width height = Inr [c0, c1, c2, c3]"
  using assms by (simp add: scaled_components_def component_def)

text \<open>Whatever the box and the dimensions, a clamped result has four components in range.\<close>

lemma scaled_components_length:
  "scaled_components box width height = Inr cs \<Longrightarrow> length cs = 4"
  by (auto simp: scaled_components_def split: sum.splits)

lemma OCRProcessor_normalize_box_range:
  "OCRProcessor_normalize_box box width height = Inr cs \<Longrightarrow>
     length cs = 4 \<and> (\<forall>c \<in> set cs. 0 \<le> c \<and> c \<le> 1000)"
  by (auto simp: OCRProcessor_normalize_box_def dest: scaled_components_length
      split: sum.splits)

lemma normalize_box_length:
  "normalize_box box width height = Inr cs \<Longrightarrow> length cs = 4"
  by (simp add: normalize_box_def scaled_components_length)

text \<open>
  C1, as the specification states it, fails on the code. The box \<open>[3, 0, 0, 0]\<close> on a
  \<open>32 x 1\<close> image has the exact scaled coordinate \<open>93.75\<close> (every floating-point step is
  exact here): the code truncates it to \<open>93\<close>, rounding gives \<open>94\<close>. And \<^verbatim>\<open>normalize_box\<close> of
  the pipeline module does not clamp: \<open>[2048, 0, 0, 0]\<close> on a \<open>1024 x 1\<close> image gives \<open>2000\<close>.
\<close>

theorem normalize_box_round_counterexample:
  "OCRProcessor_normalize_box [3, 0, 0, 0] 32 1 = Inr [93, 0, 0, 0]
   \<and> normalize_box [3, 0, 0, 0] 32 1 = Inr [93, 0, 0, 0]
   \<and> spec_normalize_box [3, 0, 0, 0] 32 1 = [94, 0, 0, 0]
   \<and> normalize_box [2048, 0, 0, 0] 1024 1 = Inr [2000, 0, 0, 0]"
proof -
  have a: "scaled_components [3, 0, 0, 0] 32 1 = Inr [93, 0, 0, 0]"
    by (rule scaled_components_Inr) (simp_all add: scaled_3_32 scaled_zero)
  have b: "scaled_components [2048, 0, 0, 0] 1024 1 = Inr [2000, 0, 0, 0]"
    by (rule scaled_components_Inr) (simp_all add: scaled_2048_1024 scaled_zero)
  have c: "spec_normalize_box [3, 0, 0, 0] 32 1 = [94, 0, 0, 0]"
    by (simp add: spec_normalize_box_def round_def)
  show ?thesis
    by (simp add: OCRProcessor_normalize_box_def normalize_box_def a b c)
qed

text \<open>
  C1, amended: for every pixel box \<open>[l, t, r, b]\<close> of coordinates of at most \<open>2\<^sup>1\<^sup>0\<^sup>0\<^sup>0\<close> in
  absolute value and non-zero image dimensions, both normalization functions return, and
  compute the four components as the floats \<^verbatim>\<open>1000 * (l / W)\<close>, \<^verbatim>\<open>1000 * (t / H)\<close>,
  \<^verbatim>\<open>1000 * (r / W)\<close>, \<^verbatim>\<open>1000 * (b / H)\<close> truncated toward zero (Python's \<^verbatim>\<open>int\<close>, not
  rounding). \<^verbatim>\<open>OCRProcessor.normalize_box\<close> then clamps each one, so its result always
  lies in \<open>[0, 1000]\<close>. \<^verbatim>\<open>normalize_box\<close> of the pipeline module does not clamp; its
  result lies in \<open>[0, 1000]\<close> when the box lies inside an image of positive dimensions.
  The box \<open>[0, 0, 100, 50]\<close> on a \<open>200 x 100\<close> image normalizes to \<open>[0, 0, 500, 500]\<close> under
  both.
\<close>

theorem normalize_box_truncates_then_clamps:
  assumes "width \<noteq> 0" and "height \<noteq> 0"
    and "\<bar>l\<bar> \<le> 2 ^ 1000" and "\<bar>t\<bar> \<le> 2 ^ 1000" and "\<bar>r\<bar> \<le> 2 ^ 1000" and "\<bar>b\<bar> \<le> 2 ^ 1000"
  shows "\<exists>c0 c1 c2 c3.
           normalize_box [l, t, r, b] width height = Inr [c0, c1, c2, c3]
         \<and> truncated_product l width c0 \<and> truncated_product t height c1
         \<and> truncated_product r width c2 \<and> truncated_product b height c3
         \<and> OCRProcessor_normalize_box [l, t, r, b] width height =
             Inr (map (\<lambda>c. max (min c 1000) 0) [c0, c1, c2, c3])
         \<and> (\<forall>c \<in> set (map (\<lambda>c. max (min c 1000) 0) [c0, c1, c2, c3]). 0 \<le> c \<and> c \<le> 1000)
         \<and> (0 \<le> l \<and> l \<le> width \<and> 0 \<le> r \<and> r \<le> width
              \<and> 0 \<le> t \<and> t \<le> height \<and> 0 \<le> b \<and> b \<le> height \<longrightarrow>
            (\<forall>c \<in> set [c0, c1, c2, c3]. 0 \<le> c \<and> c \<le> 1000))
         \<and> OCRProcessor_normalize_box [0, 0, 100, 50] 200 100 = Inr [0, 0, 500, 500]
         \<and> normalize_box [0, 0, 100, 50] 200 100 = Inr [0, 0, 500, 500]"
proof -
  obtain c0 where c0: "scaled l width = Inr c0" "truncated_product l width c0"
    using scaled_returns [OF assms(1) assms(3)] by blast
  obtain c1 where c1: "scaled t height = Inr c1" "truncated_product t height c1"
    using scaled_returns [OF assms(2) assms(4)] by blast
  obtain c2 where c2: "scaled r width = Inr c2" "truncated_product r width c2"
    using scaled_returns [OF assms(1) assms(5)] by blast
  obtain c3 where c3: "scaled b height = Inr c3" "truncated_product b height c3"
    using scaled_returns [OF assms(2) assms(6)] by blast
  have sc: "scaled_components [l, t, r, b] width height = Inr [c0, c1, c2, c3]"
    using c0(1) c1(1) c2(1) c3(1) by (rule scaled_components_Inr)
  have ex: "scaled_components [0, 0, 100, 50] 200 100 = Inr [0, 0, 500, 500]"
    by (rule scaled_components_Inr) (simp_all add: scaled_100_200 scaled_50_100 scaled_zero)
  have inside: "\<forall>c \<in> set [c0, c1, c2, c3]. 0 \<le> c \<and> c \<le> 1000"
    if h: "0 \<le> l \<and> l \<le> width \<and> 0 \<le> r \<and> r \<le> width
           \<and> 0 \<le> t \<and> t \<le> height \<and> 0 \<le> b \<and> b \<le> height"
  proof -
    have w: "0 < width" and g: "0 < height" using h assms(1,2) by linarith+
    have "0 \<le> c0 \<and> c0 \<le> 1000" using scaled_in_range [of l width] h w c0(1) by auto
    moreover have "0 \<le> c1 \<and> c1 \<le> 1000" using scaled_in_range [of t height] h g c1(1) by auto
    moreover have "0 \<le> c2 \<and> c2 \<le> 1000" using scaled_in_range [of r width] h w c2(1) by auto
    moreover have "0 \<le> c3 \<and> c3 \<le> 1000" using scaled_in_range [of b height] h g c3(1) by auto
    ultimately show ?thesis by simp
  qed
  have n: "normalize_box [l, t, r, b] width height = Inr [c0, c1, c2, c3]"
    by (simp add: normalize_box_def sc)
  have o: "OCRProcessor_normalize_box [l, t, r, b] width height =
             Inr (map (\<lambda>c. max (min c 1000) 0) [c0, c1, c2, c3])"
    by (simp add: OCRProcessor_normalize_box_def sc)
  have rng: "\<forall>c \<in> set (map (\<lambda>c. max (min c 1000) 0) [c0, c1, c2, c3]). 0 \<le> c \<and> c \<le> 1000"
    by simp
  have e1: "OCRProcessor_normalize_box [0, 0, 100, 50] 200 100 = Inr [0, 0, 500, 500]"
    by (simp add: OCRProcessor_normalize_box_def ex)
  have e2: "normalize_box [0, 0, 100, 50] 200 100 = Inr [0, 0, 500, 500]"
    by (simp add: normalize_box_def ex)
  show ?thesis
    using n c0(2) c1(2) c2(2) c3(2) o rng inside e1 e2 by blast
qed

theorem normalize_box_truncates_then_clamps_witness:
  "(32::int) \<noteq> 0 \<and> (1::int) \<noteq> 0 \<and> \<bar>3::int\<bar> \<le> 2 ^ 1000 \<and> \<bar>0::int\<bar> \<le> 2 ^ 1000
   \<and> normalize_box [3, 0, 0, 0] 32 1 = Inr [93, 0, 0, 0]
   \<and> OCRProcessor_normalize_box [3, 0, 0, 0] 32 1 = Inr [93, 0, 0, 0]
   \<and> truncated_product 3 32 93"
proof -
  have sc: "scaled_components [3, 0, 0, 0] 32 1 = Inr [93, 0, 0, 0]"
    by (rule scaled_components_Inr) (simp_all add: scaled_3_32 scaled_zero)
  have n: "normalize_box [3, 0, 0, 0] 32 1 = Inr [93, 0, 0, 0]"
    by (simp add: normalize_box_def sc)
  have o: "OCRProcessor_normalize_box [3, 0, 0, 0] 32 1 = Inr [93, 0, 0, 0]"
    by (simp add: OCRProcessor_normalize_box_def sc)
  have "\<exists>c0 c1 c2 c3. normalize_box [3, 0, 0, 0] 32 1 = Inr [c0, c1, c2, c3]
          \<and> truncated_product 3 32 c0"
    using normalize_box_truncates_then_clamps [of 32 1 3 0 0 0] by simp blast
  then have "truncated_product 3 32 93" unfolding n by simp
  then show ?thesis using n o by simp
qed

section \<open>Results: constructing an OCR processor\<close>

text \<open>
  C9: constructing any of the three concrete processors fails with the TypeError for the
  missing \<^verbatim>\<open>device\<close> argument, whatever the availability flags: the constructor calls
  \<^verbatim>\<open>super().__init__()\<close> with no argument. (A call with arguments is also a TypeError: the
  constructors take none.) Nothing is logged, since the availability check is not reached.
\<close>

theorem construct_always_TypeError:
  "construct flags cls [] = ([], Inl missing_device)
   \<and> (\<exists>msg. snd (construct flags cls args) = Inl (TypeError msg))"
  by (simp add: construct_def OCRProcessor_init_def missing_device_def)

text \<open>
  C7 fails on the code at every input, by the same defect: with both engines missing,
  constructing the Tesseract-backed or the EasyOCR-backed processor raises the TypeError,
  not the "no OCR reader found" error that \<^verbatim>\<open>check_if_available\<close> would raise; and
  constructing the fallback processor raises it too, instead of succeeding with a warning.
\<close>

theorem construct_never_checks_availability:
  "construct \<lparr>TESSERACT_AVAILABLE = False, EASYOCR_AVAILABLE = False\<rparr> TesseractProcessor []
     = ([], Inl missing_device :: error + unit ocr_processor)
   \<and> construct \<lparr>TESSERACT_AVAILABLE = False, EASYOCR_AVAILABLE = False\<rparr> EasyOCRProcessor []
     = ([], Inl missing_device :: error + unit ocr_processor)
   \<and> construct \<lparr>TESSERACT_AVAILABLE = True, EASYOCR_AVAILABLE = True\<rparr> DummyProcessor []
     = ([], Inl missing_device :: error + unit ocr_processor)
   \<and> (\<exists>msg. missing_device = TypeError msg)
   \<and> (\<exists>msg. check_if_available \<lparr>TESSERACT_AVAILABLE = False, EASYOCR_AVAILABLE = False\<rparr>
               TesseractProcessor = ([], Inl (NoOCRReaderFound msg)))"
  by (simp add: construct_def OCRProcessor_init_def missing_device_def check_if_available_def)

text \<open>
  What the availability check and the fallback's \<^verbatim>\<open>apply_ocr\<close> do when they are called on
  their own: the check of a concrete backend raises exactly when its flag is off, the
  fallback's check logs a warning and succeeds, and the fallback's \<^verbatim>\<open>apply_ocr\<close> raises.
\<close>

lemma check_if_available_cases:
  "(\<exists>msg. check_if_available flags TesseractProcessor =
            (if TESSERACT_AVAILABLE flags then ([], Inr ()) else ([], Inl (NoOCRReaderFound msg))))
   \<and> (\<exists>msg. check_if_available flags EasyOCRProcessor =
            (if EASYOCR_AVAILABLE flags then ([], Inr ()) else ([], Inl (NoOCRReaderFound msg))))
   \<and> (\<exists>warning. check_if_available flags DummyProcessor = ([warning], Inr ()))
   \<and> (\<exists>msg. DummyProcessor_apply_ocr self img = Inl (NoOCRReaderFound msg))"
  by (simp add: check_if_available_def DummyProcessor_apply_ocr_def)

section \<open>Results: parameter validation\<close>

lemma str_nat_0: "str_nat 0 = ''0''"
  by (simp add: str_nat.simps digit_char_def)

lemma str_int_0: "str_int 0 = ''0''"
  by (simp add: str_int_def str_nat_0)

text \<open>The two raise sites, with their messages, and the accepting path.\<close>

lemma sanitize_top_k:
  "kw_top_k kw = Some k \<Longrightarrow> k < 1 \<Longrightarrow>
     sanitize_parameters kw =
       Inl (ValueError (''top_k parameter should be >= 1 (got '' @ str_int k @ '')''))"
  by (simp add: sanitize_parameters_def)

lemma sanitize_max_answer_len:
  "kw_top_k kw = None \<or> (\<exists>k. kw_top_k kw = Some k \<and> 1 \<le> k) \<Longrightarrow>
   kw_max_answer_len kw = Some m \<Longrightarrow> m < 1 \<Longrightarrow>
     sanitize_parameters kw =
       Inl (ValueError (''max_answer_len parameter should be >= 1 (got '' @ str_int m))"
  by (auto simp add: sanitize_parameters_def)

lemma sanitize_accepts:
  "kw_top_k kw = None \<or> (\<exists>k. kw_top_k kw = Some k \<and> 1 \<le> k) \<Longrightarrow>
   kw_max_answer_len kw = None \<or> (\<exists>m. kw_max_answer_len kw = Some m \<and> 1 \<le> m) \<Longrightarrow>
   \<exists>pre post. sanitize_parameters kw = Inr (pre, (), post)
      \<and> post_top_k post = kw_top_k kw \<and> post_max_answer_len post = kw_max_answer_len kw"
  by (auto simp add: sanitize_parameters_def)

lemma sanitize_example:
  "sanitize_parameters example_kwargs = Inl (ValueError ''top_k parameter should be >= 1 (got 0)'')"
  using sanitize_top_k [of example_kwargs 0]
  by (simp add: example_kwargs_def str_int_0)

text \<open>
  C4: when the caller supplies \<^verbatim>\<open>top_k < 1\<close> or \<^verbatim>\<open>max_answer_len < 1\<close>, sanitization
  raises a ValueError, and the call returns it with the world untouched: whatever the
  stages would do (OCR, preprocessing, the model), none of it has run.
\<close>

theorem sanitize_rejects_before_any_work:
  assumes "(\<exists>k. kw_top_k kw = Some k \<and> k < 1) \<or> (\<exists>m. kw_max_answer_len kw = Some m \<and> m < 1)"
  shows "\<exists>msg. sanitize_parameters kw = Inl (ValueError msg)
            \<and> (\<forall>(stages :: preprocess_params \<Rightarrow> postprocess_params \<Rightarrow> 'w \<Rightarrow> 'w \<times> (error + 'a))
                   world.
                  pipeline_call kw stages world = (world, Inl (ValueError msg)))"
proof -
  have "\<exists>msg. sanitize_parameters kw = Inl (ValueError msg)"
    using assms by (auto simp add: sanitize_parameters_def split: option.splits)
  then show ?thesis by (auto simp add: pipeline_call_def)
qed

theorem sanitize_rejects_before_any_work_witness:
  "kw_top_k example_kwargs = Some 0 \<and> (0::int) < 1
   \<and> (\<exists>msg. sanitize_parameters example_kwargs = Inl (ValueError msg)
         \<and> pipeline_call example_kwargs (\<lambda>pre post w. (Suc w, Inr ())) (0::nat)
             = (0, Inl (ValueError msg)))"
proof -
  have k: "kw_top_k example_kwargs = Some 0" by (simp add: example_kwargs_def)
  then have "(\<exists>k. kw_top_k example_kwargs = Some k \<and> k < 1)
      \<or> (\<exists>m. kw_max_answer_len example_kwargs = Some m \<and> m < 1)" by simp
  from sanitize_rejects_before_any_work [where 'w = nat and 'a = unit, OF this] k
  show ?thesis by auto
qed

section \<open>Results: explicit word boxes\<close>

text \<open>
  C3: when the input holds both explicit word boxes and an image, \<^verbatim>\<open>apply_tesseract\<close> is
  never called, and whenever preprocessing gets as far as words and boxes they are the
  caller's, verbatim and in order. It gets that far whenever the image library is present
  and the image loads; the only failures are those of loading the image.
\<close>

theorem word_boxes_take_precedence:
  assumes "in_word_boxes input = Some word_boxes" and "in_image input = Some src"
  shows "fst (preprocess_words_boxes env input lang tesseract_config) = 0
       \<and> (\<forall>words boxes.
             snd (preprocess_words_boxes env input lang tesseract_config) = Inr (words, boxes)
             \<longrightarrow> words = map fst word_boxes \<and> boxes = map snd word_boxes)
       \<and> (VISION_LOADED env \<and> (\<exists>img. load_image env src = Inr img)
             \<longrightarrow> preprocess_words_boxes env input lang tesseract_config
                   = (0, Inr (map fst word_boxes, map snd word_boxes)))
       \<and> (\<forall>e. snd (preprocess_words_boxes env input lang tesseract_config) = Inl e
             \<longrightarrow> (\<not> VISION_LOADED env \<and> e = pil_missing) \<or> load_image env src = Inl e)"
  using assms
  by (auto simp add: preprocess_words_boxes_def split: sum.splits option.splits)

theorem word_boxes_take_precedence_witness:
  "in_word_boxes example_input = Some [(str ''Paris'', [10, 20, 30, 40])]
   \<and> in_image example_input = Some ''doc.png''
   \<and> preprocess_words_boxes example_env example_input None None
       = (0, Inr ([str ''Paris''], [[10, 20, 30, 40]]))"
proof -
  have a: "in_word_boxes example_input = Some [(str ''Paris'', [10, 20, 30, 40])]"
    and b: "in_image example_input = Some ''doc.png''"
    by (simp_all add: example_input_def)
  have c: "VISION_LOADED example_env \<and> (\<exists>img. load_image example_env ''doc.png'' = Inr img)"
    by (simp add: example_env_def)
  note inst = word_boxes_take_precedence [OF a b, of example_env None None]
  note run = inst [THEN conjunct2, THEN conjunct2, THEN conjunct1, THEN mp, OF c]
  have "preprocess_words_boxes example_env example_input None None
          = (0, Inr ([str ''Paris''], [[10, 20, 30, 40]]))"
    unfolding run by simp
  with a b show ?thesis by (intro conjI)
qed

text \<open>Without explicit word boxes the same input does run the OCR engine, once.\<close>

lemma str_nonempty: "str (c # cs) \<noteq> []"
  by (simp add: str_def)

lemma strip_OCR: "strip (str ''OCR'') = str ''OCR''"
  by (simp add: strip_def str_def is_space_def)

lemma ocr_runs_without_word_boxes:
  "preprocess_words_boxes example_env (example_input\<lparr>in_word_boxes := None\<rparr>) None None
     = (1, Inr ([str ''OCR''], [[0, 0, 500, 500]]))"
proof -
  have "apply_tesseract (pytesseract_image_to_data example_env)
          \<lparr>im_size = (200, 100), im_pixels = []\<rparr> None None
        = Inr ([str ''OCR''], [[0, 0, 500, 500]])"
    by (simp add: apply_tesseract_def example_env_def irrelevant_indices_def drop_irrelevant_def
        strip_OCR str_nonempty actual_boxes_def normalize_box_def scaled_components_def
        component_def scaled_zero scaled_100_200 scaled_50_100)
  then show ?thesis
    by (simp add: preprocess_words_boxes_def example_env_def example_input_def)
qed

section \<open>Results: the OCR output\<close>




















lemma map_err_nth:
  "map_err f xs = Inr ys \<Longrightarrow> i < length xs \<Longrightarrow> f (xs ! i) = Inr (ys ! i)"
  by (induction xs arbitrary: ys i) (auto split: sum.splits simp: nth_Cons split: nat.splits)








































section \<open>Results: postprocessing\<close>

text \<open>
  The two loops, separated: the inner loop appends the chunk's candidates, the outer loop
  appends the candidates of all chunks in order, with the selections the helper made along
  the way.
\<close>

lemma map_filter_Cons:
  "List.map_filter f (x # xs) = (case f x of None \<Rightarrow> List.map_filter f xs | Some y \<Rightarrow> y # List.map_filter f xs)"
  by (simp add: List.map_filter_def split: option.splits)

lemma chunk_candidates_Nil: "chunk_candidates words word_ids [] = []"
  by (simp add: chunk_candidates_def List.map_filter_def)

lemma chunk_candidates_Cons:
  "chunk_candidates words word_ids ((s, e, score) # spans) =
     (if s < length word_ids \<and> e < length word_ids then
        (case (word_ids ! s, word_ids ! e) of
           (Some word_start, Some word_end) \<Rightarrow>
             [\<lparr>ans_score = score,
               ans_answer = join (str '' '') (slice_incl words word_start word_end),
               ans_start = word_start, ans_end = word_end\<rparr>]
         | _ \<Rightarrow> [])
      else [])
     @ chunk_candidates words word_ids spans"
  by (simp add: chunk_candidates_def map_filter_Cons split: option.splits)

lemma spans_loop_candidates:
  "spans_loop words word_ids spans answers = Inr answers' \<Longrightarrow>
     answers' = answers @ chunk_candidates words word_ids spans"
proof (induction spans arbitrary: answers)
  case Nil
  then show ?case by (simp add: chunk_candidates_Nil)
next
  case (Cons span spans)
  obtain s e score where span: "span = (s, e, score)" by (cases span) auto
  show ?case
  proof (cases "word_ids ! s")
    case None
    with Cons.prems Cons.IH show ?thesis
      by (auto simp add: span chunk_candidates_Cons split: if_splits)
  next
    case (Some word_start)
    show ?thesis
    proof (cases "word_ids ! e")
      case None
      with Some Cons.prems Cons.IH show ?thesis
        by (auto simp add: span chunk_candidates_Cons split: if_splits)
    next
      case (Some word_end)
      with \<open>word_ids ! s = Some word_start\<close> Cons.prems
      have "s < length word_ids \<and> e < length word_ids"
        and "spans_loop words word_ids spans
               (answers @ [\<lparr>ans_score = score,
                  ans_answer = join (str '' '') (slice_incl words word_start word_end),
                  ans_start = word_start, ans_end = word_end\<rparr>]) = Inr answers'"
        by (auto simp add: span split: if_splits)
      with Cons.IH Some \<open>word_ids ! s = Some word_start\<close> show ?thesis
        by (fastforce simp add: span chunk_candidates_Cons)
    qed
  qed
qed

lemma spans_loop_in_range:
  "(\<forall>(s, e, score) \<in> set spans. s < length word_ids \<and> e < length word_ids) \<Longrightarrow>
     spans_loop words word_ids spans answers
       = Inr (answers @ chunk_candidates words word_ids spans)"
proof (induction spans arbitrary: answers)
  case Nil
  then show ?case by (simp add: chunk_candidates_Nil)
next
  case (Cons span spans)
  obtain s e score where span: "span = (s, e, score)" by (cases span) auto
  have r: "s < length word_ids \<and> e < length word_ids" using Cons.prems span by simp
  have ih: "\<And>answers. spans_loop words word_ids spans answers
       = Inr (answers @ chunk_candidates words word_ids spans)"
    using Cons.IH Cons.prems by simp
  show ?case
    using r by (simp add: span ih chunk_candidates_Cons split: option.splits)
qed

lemma outputs_loop_selections:
  "outputs_loop select outs top_k hia mal m answers = Inr (m', answers') \<Longrightarrow>
     \<exists>sels. selections select outs top_k hia mal m = Inr (sels, m')
          \<and> length sels = length outs
          \<and> answers' = answers @ merged_candidates outs sels"
proof (induction outs arbitrary: m answers)
  case Nil
  then show ?case by (simp add: merged_candidates_def)
next
  case (Cons out outs)
  from Cons.prems obtain starts ends scores m1 answers1 where
    sel: "select (out_start_logits out) (out_end_logits out) (out_p_mask out)
             (out_attention_mask out) m top_k hia mal = Inr (starts, ends, scores, m1)"
    and sp: "spans_loop (out_words out) (out_word_ids out) (zip starts (zip ends scores)) answers
               = Inr answers1"
    and rest: "outputs_loop select outs top_k hia mal m1 answers1 = Inr (m', answers')"
    by (auto split: sum.splits)
  from Cons.IH [OF rest] obtain sels where
    s: "selections select outs top_k hia mal m1 = Inr (sels, m')"
    and l: "length sels = length outs"
    and a: "answers' = answers1 @ merged_candidates outs sels"
    by blast
  have "answers1 = answers @ chunk_candidates (out_words out) (out_word_ids out)
                               (zip starts (zip ends scores))"
    using spans_loop_candidates [OF sp] .
  then show ?case
    using sel s l a
    by (intro exI [of _ "zip starts (zip ends scores) # sels"]) (simp add: merged_candidates_def)
qed


text \<open>
  Postprocessing returns whenever the helper returns on every chunk and every selected
  boundary is a token of its chunk: the only failures are the helper's and a read of
  \<^verbatim>\<open>word_ids\<close> out of range.
\<close>

lemma outputs_loop_returns:
  assumes "\<forall>out \<in> set outs. \<forall>m. \<exists>starts ends scores m'.
      select (out_start_logits out) (out_end_logits out) (out_p_mask out)
        (out_attention_mask out) m top_k hia mal = Inr (starts, ends, scores, m')
      \<and> (\<forall>(s, e, score) \<in> set (zip starts (zip ends scores)).
            s < length (out_word_ids out) \<and> e < length (out_word_ids out))"
  shows "\<exists>m' answers'. outputs_loop select outs top_k hia mal m answers = Inr (m', answers')"
  using assms
proof (induction outs arbitrary: m answers)
  case Nil
  then show ?case by simp
next
  case (Cons out outs)
  have here: "\<exists>starts ends scores m'.
      select (out_start_logits out) (out_end_logits out) (out_p_mask out)
        (out_attention_mask out) m top_k hia mal = Inr (starts, ends, scores, m')
      \<and> (\<forall>(s, e, score) \<in> set (zip starts (zip ends scores)).
            s < length (out_word_ids out) \<and> e < length (out_word_ids out))"
    using Cons.prems by simp
  then obtain starts ends scores m1 where
    sel: "select (out_start_logits out) (out_end_logits out) (out_p_mask out)
        (out_attention_mask out) m top_k hia mal = Inr (starts, ends, scores, m1)"
    and sp: "\<forall>(s, e, score) \<in> set (zip starts (zip ends scores)).
            s < length (out_word_ids out) \<and> e < length (out_word_ids out)"
    by blast
  note loop = spans_loop_in_range [OF sp, of "out_words out" answers]
  have "\<exists>m' answers'. outputs_loop select outs top_k hia mal m1
      (answers @ chunk_candidates (out_words out) (out_word_ids out) (zip starts (zip ends scores)))
      = Inr (m', answers')"
    using Cons.IH Cons.prems by simp
  then show ?case using sel loop by simp
qed

lemma postprocess_returns:
  assumes "\<forall>out \<in> set outs. \<forall>m. \<exists>starts ends scores m'.
      select (out_start_logits out) (out_end_logits out) (out_p_mask out)
        (out_attention_mask out) m top_k hia mal = Inr (starts, ends, scores, m')
      \<and> (\<forall>(s, e, score) \<in> set (zip starts (zip ends scores)).
            s < length (out_word_ids out) \<and> e < length (out_word_ids out))"
  shows "\<exists>r. postprocess select outs top_k hia mal = Inr r"
proof -
  have "\<exists>m' answers'. outputs_loop select outs top_k hia mal 1000000 [] = Inr (m', answers')"
    using assms by (rule outputs_loop_returns)
  then obtain m' answers' where
    "outputs_loop select outs top_k hia mal 1000000 [] = Inr (m', answers')" by blast
  then show ?thesis by (simp add: postprocess_def Let_def)
qed

text \<open>
  The answers of a result are the sorted candidates, cut at \<^verbatim>\<open>top_k\<close>; the result is a
  single record exactly when one answer is left.
\<close>

lemma postprocess_answers:
  assumes "postprocess select outs top_k hia mal = Inr r"
  shows "\<exists>sels m. selections select outs top_k hia mal 1000000 = Inr (sels, m)
           \<and> length sels = length outs
           \<and> answers_of r = slice_to (sorted_by_score
                 (merged_candidates outs sels @ (if hia then [no_answer m] else []))) top_k
           \<and> r = (if length (answers_of r) = 1 then Single (answers_of r ! 0)
                    else Many (answers_of r))"
proof -
  from assms obtain m answers where
    loop: "outputs_loop select outs top_k hia mal 1000000 [] = Inr (m, answers)"
    by (auto simp add: postprocess_def split: sum.splits)
  from outputs_loop_selections [OF loop] obtain sels where
    s: "selections select outs top_k hia mal 1000000 = Inr (sels, m)"
    and l: "length sels = length outs"
    and a: "answers = merged_candidates outs sels"
    by auto
  let ?final = "slice_to (sorted_by_score
                 (merged_candidates outs sels @ (if hia then [no_answer m] else []))) top_k"
  have r: "r = (if length ?final = 1 then Single (?final ! 0) else Many ?final)"
    using assms loop a by (auto simp add: postprocess_def Let_def)
  have f: "answers_of r = ?final"
  proof (cases "length ?final = 1")
    case True
    then have "?final = [?final ! 0]"
      by (metis One_nat_def length_0_conv length_Suc_conv nth_Cons_0)
    with True r show ?thesis by simp
  next
    case False
    with r show ?thesis by simp
  qed
  have "r = (if length (answers_of r) = 1 then Single (answers_of r ! 0)
             else Many (answers_of r))"
    unfolding f by (rule r)
  with s l f show ?thesis by blast
qed

lemma postprocess_shape:
  assumes "postprocess select outs top_k hia mal = Inr r"
  shows "(\<exists>a. r = Single a) \<longleftrightarrow> length (answers_of r) = 1"
  using assms
  by (auto simp add: postprocess_def Let_def split: sum.splits if_splits)

lemma slice_to_length: "0 \<le> k \<Longrightarrow> length (slice_to xs k) = min (nat k) (length xs)"
  by (simp add: slice_to_def)

lemma sorted_by_score_props:
  "mset (sorted_by_score xs) = mset xs"
  "length (sorted_by_score xs) = length xs"
  "sorted_wrt (\<lambda>a b. ans_score a \<ge> ans_score b) (sorted_by_score xs)"
proof -
  show "mset (sorted_by_score xs) = mset xs" by (simp add: sorted_by_score_def)
  show "length (sorted_by_score xs) = length xs" by (simp add: sorted_by_score_def)
  have "sorted (map (\<lambda>x. - ans_score x) (sorted_by_score xs))"
    by (simp add: sorted_by_score_def)
  then show "sorted_wrt (\<lambda>a b. ans_score a \<ge> ans_score b) (sorted_by_score xs)"
    by (simp add: sorted_map)
qed

text \<open>
  When the helper lowers the running minimum to the chunk's null score, the last minimum
  is the least of the initial value and the null scores of all chunks.
\<close>

lemma Min_insert_min:
  fixes a b :: real
  assumes "finite S"
  shows "Min (insert (min a b) S) = Min (insert a (insert b S))"
proof (cases "S = {}")
  case True
  then show ?thesis by (simp add: min.commute)
next
  case False
  with assms show ?thesis by (simp add: min.assoc)
qed

lemma selections_min:
  assumes upd: "\<And>sl el pm am m0 k h l starts ends scores m1.
      select sl el pm am m0 k h l = Inr (starts, ends, scores, m1) \<Longrightarrow> m1 = min m0 (null_score sl el)"
    and "selections select outs top_k hia mal m0 = Inr (sels, m)"
  shows "m = Min (insert m0 ((\<lambda>out. null_score (out_start_logits out) (out_end_logits out)) ` set outs))"
  using assms(2)
proof (induction outs arbitrary: m0 sels)
  case Nil
  then show ?case by simp
next
  case (Cons out outs)
  from Cons.prems obtain starts ends scores m1 sels' where
    sel: "select (out_start_logits out) (out_end_logits out) (out_p_mask out)
             (out_attention_mask out) m0 top_k hia mal = Inr (starts, ends, scores, m1)"
    and rest: "selections select outs top_k hia mal m1 = Inr (sels', m)"
    by (auto split: sum.splits)
  have m1: "m1 = min m0 (null_score (out_start_logits out) (out_end_logits out))"
    using upd [OF sel] .
  from Cons.IH [OF rest] show ?case
    by (simp add: m1 Min_insert_min)
qed


text \<open>
  C5: whenever postprocessing returns (with \<^verbatim>\<open>top_k\<close> not negative), its answers are
  the first \<^verbatim>\<open>top_k\<close> of the sorted candidates, where the candidates are those of all
  chunks merged in order, followed, exactly when \<^verbatim>\<open>handle_impossible_answer\<close> is set, by
  one no-answer candidate with start 0, end 0, an empty answer and the minimum null score
  as its score. Sorting permutes the candidates into descending order of score. The
  number of answers is \<^verbatim>\<open>top_k\<close>, or the number of candidates when there are fewer. The
  minimum null score is the one threaded through the helper from the initial 1000000:
  for a helper that lowers it to each chunk's null score, it is the minimum of 1000000 and
  the null scores of all chunks.
\<close>

theorem postprocess_merges_sorts_truncates:
  assumes "postprocess select outs top_k hia mal = Inr r" and "0 \<le> top_k"
  shows "\<exists>sels m.
           selections select outs top_k hia mal 1000000 = Inr (sels, m)
         \<and> length sels = length outs
         \<and> (let candidates = merged_candidates outs sels @ (if hia then [no_answer m] else [])
            in answers_of r = take (nat top_k) (sorted_by_score candidates)
             \<and> mset (sorted_by_score candidates) = mset candidates
             \<and> sorted_wrt (\<lambda>a b. ans_score a \<ge> ans_score b) (sorted_by_score candidates)
             \<and> length (answers_of r) = min (nat top_k) (length candidates))
         \<and> no_answer m = \<lparr>ans_score = m, ans_answer = [], ans_start = 0, ans_end = 0\<rparr>
         \<and> ((\<forall>sl el pm am m0 k h l starts ends scores m1.
                select sl el pm am m0 k h l = Inr (starts, ends, scores, m1)
                \<longrightarrow> m1 = min m0 (null_score sl el))
              \<longrightarrow> m = Min (insert 1000000
                       ((\<lambda>out. null_score (out_start_logits out) (out_end_logits out)) ` set outs)))"
proof -
  from postprocess_answers [OF assms(1)] obtain sels m where
    s: "selections select outs top_k hia mal 1000000 = Inr (sels, m)"
    and l: "length sels = length outs"
    and a: "answers_of r = slice_to (sorted_by_score
                 (merged_candidates outs sels @ (if hia then [no_answer m] else []))) top_k"
    by blast
  let ?c = "merged_candidates outs sels @ (if hia then [no_answer m] else [])"
  have t: "answers_of r = take (nat top_k) (sorted_by_score ?c)"
    using a assms(2) by (simp add: slice_to_def)
  have len: "length (answers_of r) = min (nat top_k) (length ?c)"
    unfolding t by (simp add: sorted_by_score_props(2))
  have mn: "(\<forall>sl el pm am m0 k h l starts ends scores m1.
                select sl el pm am m0 k h l = Inr (starts, ends, scores, m1)
                \<longrightarrow> m1 = min m0 (null_score sl el))
              \<longrightarrow> m = Min (insert 1000000
                       ((\<lambda>out. null_score (out_start_logits out) (out_end_logits out)) ` set outs))"
    using selections_min [of select null_score outs top_k hia mal 1000000 sels m] s by blast
  show ?thesis
    apply (rule exI [of _ sels], rule exI [of _ m])
    using s l t len mn sorted_by_score_props(1) [of ?c] sorted_by_score_props(3) [of ?c]
    by (simp add: Let_def no_answer_def)
qed

lemma example_two_chunks:
  "postprocess select_word [example_output_paris, example_output_rome] 2 True 15
     = Inr (Many [\<lparr>ans_score = 9, ans_answer = str ''Paris'', ans_start = 0, ans_end = 0\<rparr>,
                  \<lparr>ans_score = 6, ans_answer = str ''Rome'', ans_start = 0, ans_end = 0\<rparr>])"
  by (simp add: postprocess_def select_word_def example_output_paris_def example_output_rome_def
      slice_incl_def sorted_by_score_def slice_to_def no_answer_def)


lemma select_word_lowers_min:
  "\<forall>sl el pm am m0 k h l starts ends scores m1.
      select_word sl el pm am m0 k h l = Inr (starts, ends, scores, m1)
      \<longrightarrow> m1 = min m0 (sl ! 0 + el ! 0)"
  by (simp add: select_word_def)

theorem postprocess_merges_sorts_truncates_witness:
  "postprocess select_word [example_output_paris, example_output_rome] 2 True 15
     = Inr (Many [\<lparr>ans_score = 9, ans_answer = str ''Paris'', ans_start = 0, ans_end = 0\<rparr>,
                  \<lparr>ans_score = 6, ans_answer = str ''Rome'', ans_start = 0, ans_end = 0\<rparr>])
   \<and> (0::int) \<le> 2
   \<and> (\<exists>sels m.
         selections select_word [example_output_paris, example_output_rome] 2 True 15 1000000
           = Inr (sels, m)
       \<and> [\<lparr>ans_score = 9, ans_answer = str ''Paris'', ans_start = 0, ans_end = 0\<rparr>,
           \<lparr>ans_score = 6, ans_answer = str ''Rome'', ans_start = 0, ans_end = 0\<rparr>]
          = take 2 (sorted_by_score
              (merged_candidates [example_output_paris, example_output_rome] sels @ [no_answer m]))
       \<and> m = Min (insert 1000000 ((\<lambda>out. out_start_logits out ! 0 + out_end_logits out ! 0)
                     ` set [example_output_paris, example_output_rome])))"
proof -
  have k: "(0::int) \<le> 2" by simp
  from postprocess_merges_sorts_truncates [OF example_two_chunks k,
      of "\<lambda>sl el. sl ! 0 + el ! 0"] select_word_lowers_min
  obtain sels m where
    "selections select_word [example_output_paris, example_output_rome] 2 True 15 1000000
       = Inr (sels, m)"
    "[\<lparr>ans_score = 9, ans_answer = str ''Paris'', ans_start = 0, ans_end = 0\<rparr>,
      \<lparr>ans_score = 6, ans_answer = str ''Rome'', ans_start = 0, ans_end = 0\<rparr>]
       = take 2 (sorted_by_score
           (merged_candidates [example_output_paris, example_output_rome] sels @ [no_answer m]))"
    "m = Min (insert 1000000 ((\<lambda>out. out_start_logits out ! 0 + out_end_logits out ! 0)
                     ` set [example_output_paris, example_output_rome]))"
    by (auto simp add: Let_def)
  with example_two_chunks k show ?thesis by blast
qed

text \<open>
  C2, as the specification states it, fails on the code in both halves. With
  \<^verbatim>\<open>top_k = 1\<close>, a chunk whose only selected span is the classification token (which
  belongs to no word) leaves no answer, and the result is the empty list, not a record.
  With \<^verbatim>\<open>top_k = 2\<close>, a chunk where one of the two selected spans survives gives a single
  record, not a list.
\<close>

theorem postprocess_shape_counterexample:
  "postprocess select_cls [example_output_paris] 1 False 15 = Inr (Many [])
   \<and> postprocess select_word_and_cls [example_output_paris] 2 False 15
       = Inr (Single \<lparr>ans_score = 9, ans_answer = str ''Paris'', ans_start = 0, ans_end = 0\<rparr>)"
  by (simp add: postprocess_def select_cls_def select_word_and_cls_def example_output_paris_def
      slice_incl_def sorted_by_score_def slice_to_def)

text \<open>
  C2, amended: whenever postprocessing returns, the result is a single record exactly
  when exactly one answer is left after sorting and cutting at \<^verbatim>\<open>top_k\<close>, and a list
  otherwise; it holds at most \<^verbatim>\<open>top_k\<close> answers. With \<^verbatim>\<open>top_k = 1\<close> it is a single
  record, unless \<^verbatim>\<open>handle_impossible_answer\<close> is off and no candidate survives: then it is
  the empty list. The answers left are the merged candidates (with the no-answer record
  when \<^verbatim>\<open>handle_impossible_answer\<close> is on), sorted by decreasing score and cut at
  \<^verbatim>\<open>top_k\<close>: the single record is the only one of them, the list is all of them.
\<close>

theorem postprocess_single_iff_one_answer:
  assumes "postprocess select outs top_k hia mal = Inr r"
  shows "((\<exists>a. r = Single a) \<longleftrightarrow> length (answers_of r) = 1)
       \<and> (0 \<le> top_k \<longrightarrow> length (answers_of r) \<le> nat top_k)
       \<and> (top_k = 1 \<longrightarrow> (\<exists>a. r = Single a) \<or> r = Many [])
       \<and> (\<exists>sels m. selections select outs top_k hia mal 1000000 = Inr (sels, m)
             \<and> (top_k = 1 \<longrightarrow>
                   (r = Many [] \<longleftrightarrow> \<not> hia \<and> merged_candidates outs sels = []))
             \<and> answers_of r = slice_to (sorted_by_score
                   (merged_candidates outs sels @ (if hia then [no_answer m] else []))) top_k
             \<and> (length (answers_of r) = 1 \<longrightarrow> r = Single (answers_of r ! 0))
             \<and> (length (answers_of r) \<noteq> 1 \<longrightarrow> r = Many (answers_of r)))"
proof -
  note shape = postprocess_shape [OF assms]
  from postprocess_answers [OF assms] obtain sels m where
    s: "selections select outs top_k hia mal 1000000 = Inr (sels, m)"
    and a: "answers_of r = slice_to (sorted_by_score
                 (merged_candidates outs sels @ (if hia then [no_answer m] else []))) top_k"
    and rr: "r = (if length (answers_of r) = 1 then Single (answers_of r ! 0)
                  else Many (answers_of r))"
    by blast
  have single: "length (answers_of r) = 1 \<longrightarrow> r = Single (answers_of r ! 0)"
    using rr by (cases "length (answers_of r) = 1") simp_all
  have many: "length (answers_of r) \<noteq> 1 \<longrightarrow> r = Many (answers_of r)"
    using rr by (cases "length (answers_of r) = 1") simp_all
  let ?c = "merged_candidates outs sels @ (if hia then [no_answer m] else [])"
  have len: "0 \<le> top_k \<Longrightarrow> length (answers_of r) = min (nat top_k) (length ?c)"
    unfolding a by (simp add: slice_to_length sorted_by_score_props(2))
  have le: "0 \<le> top_k \<longrightarrow> length (answers_of r) \<le> nat top_k"
    using len by simp
  have one: "top_k = 1 \<longrightarrow> (\<exists>a. r = Single a) \<or> r = Many []"
  proof
    assume k: "top_k = 1"
    then have "length (answers_of r) \<le> 1" using le by simp
    then have "length (answers_of r) = 1 \<or> answers_of r = []"
      by (cases "answers_of r") auto
    then show "(\<exists>a. r = Single a) \<or> r = Many []"
      using shape by (cases r) auto
  qed
  have empty: "top_k = 1 \<longrightarrow> (r = Many [] \<longleftrightarrow> \<not> hia \<and> merged_candidates outs sels = [])"
  proof
    assume k: "top_k = 1"
    then have "length (answers_of r) = min 1 (length ?c)" using len by simp
    then have "answers_of r = [] \<longleftrightarrow> ?c = []" by (cases ?c) auto
    moreover have "r = Many [] \<longleftrightarrow> answers_of r = []" by (cases r) auto
    ultimately show "r = Many [] \<longleftrightarrow> \<not> hia \<and> merged_candidates outs sels = []" by auto
  qed
  show ?thesis using shape le one s empty a single many by blast
qed

theorem postprocess_single_iff_one_answer_witness:
  "postprocess select_word_and_cls [example_output_paris] 2 False 15
       = Inr (Single \<lparr>ans_score = 9, ans_answer = str ''Paris'', ans_start = 0, ans_end = 0\<rparr>)
   \<and> length (answers_of (Single \<lparr>ans_score = 9, ans_answer = str ''Paris'', ans_start = 0, ans_end = 0\<rparr>))
       \<le> nat 2
   \<and> postprocess select_word [example_output_paris, example_output_rome] 2 True 15
       = Inr (Many [\<lparr>ans_score = 9, ans_answer = str ''Paris'', ans_start = 0, ans_end = 0\<rparr>,
                    \<lparr>ans_score = 6, ans_answer = str ''Rome'', ans_start = 0, ans_end = 0\<rparr>])
   \<and> (\<exists>sels m.
         selections select_word [example_output_paris, example_output_rome] 2 True 15 1000000
           = Inr (sels, m)
       \<and> [\<lparr>ans_score = 9, ans_answer = str ''Paris'', ans_start = 0, ans_end = 0\<rparr>,
           \<lparr>ans_score = 6, ans_answer = str ''Rome'', ans_start = 0, ans_end = 0\<rparr>]
          = slice_to (sorted_by_score
              (merged_candidates [example_output_paris, example_output_rome] sels
                 @ [no_answer m])) 2)"
proof -
  have ev: "postprocess select_word_and_cls [example_output_paris] 2 False 15
       = Inr (Single \<lparr>ans_score = 9, ans_answer = str ''Paris'', ans_start = 0, ans_end = 0\<rparr>)"
    by (simp add: postprocess_def select_word_and_cls_def example_output_paris_def
      slice_incl_def sorted_by_score_def slice_to_def)
  from postprocess_single_iff_one_answer [OF ev]
  have one: "length (answers_of (Single \<lparr>ans_score = 9, ans_answer = str ''Paris'',
      ans_start = 0, ans_end = 0\<rparr>)) \<le> nat 2"
    by simp
  from postprocess_single_iff_one_answer [OF example_two_chunks]
  obtain sels m where
    "selections select_word [example_output_paris, example_output_rome] 2 True 15 1000000
       = Inr (sels, m)"
    "[\<lparr>ans_score = 9, ans_answer = str ''Paris'', ans_start = 0, ans_end = 0\<rparr>,
      \<lparr>ans_score = 6, ans_answer = str ''Rome'', ans_start = 0, ans_end = 0\<rparr>]
       = slice_to (sorted_by_score
           (merged_candidates [example_output_paris, example_output_rome] sels
              @ [no_answer m])) 2"
    by auto
  with ev one example_two_chunks show ?thesis by blast
qed

text \<open>When no selected span survives, the loops leave the list of answers empty.\<close>

lemma no_span_survives_Cons:
  "no_span_survives word_ids ((s, e, score) # spans) \<longleftrightarrow>
     s < length word_ids \<and> e < length word_ids
     \<and> (word_ids ! s = None \<or> word_ids ! e = None) \<and> no_span_survives word_ids spans"
  by (simp add: no_span_survives_def)

lemma spans_loop_no_survivor:
  "no_span_survives word_ids spans \<Longrightarrow> spans_loop words word_ids spans answers = Inr answers"
proof (induction spans arbitrary: answers)
  case Nil
  then show ?case by simp
next
  case (Cons span spans)
  obtain s e score where span: "span = (s, e, score)" by (cases span) auto
  from Cons.prems have
    r: "s < length word_ids \<and> e < length word_ids"
    and n: "word_ids ! s = None \<or> word_ids ! e = None"
    and rest: "no_span_survives word_ids spans"
    unfolding span no_span_survives_Cons by simp_all
  have ih: "spans_loop words word_ids spans answers = Inr answers"
    using Cons.IH [OF rest] .
  show ?case
  proof (cases "word_ids ! s")
    case None
    then show ?thesis using r ih by (simp add: span)
  next
    case (Some a)
    with n have "word_ids ! e = None" by simp
    then show ?thesis using r ih Some by (simp add: span)
  qed
qed

lemma outputs_loop_no_survivor:
  assumes "\<forall>out \<in> set outs. \<forall>m. \<exists>starts ends scores m'.
      select (out_start_logits out) (out_end_logits out) (out_p_mask out)
        (out_attention_mask out) m top_k hia mal = Inr (starts, ends, scores, m')
      \<and> no_span_survives (out_word_ids out) (zip starts (zip ends scores))"
  shows "\<exists>m'. outputs_loop select outs top_k hia mal m [] = Inr (m', [])"
  using assms
proof (induction outs arbitrary: m)
  case Nil
  then show ?case by simp
next
  case (Cons out outs)
  have here: "\<exists>starts ends scores m'.
      select (out_start_logits out) (out_end_logits out) (out_p_mask out)
        (out_attention_mask out) m top_k hia mal = Inr (starts, ends, scores, m')
      \<and> no_span_survives (out_word_ids out) (zip starts (zip ends scores))"
    using Cons.prems by simp
  then obtain starts ends scores m1 where
    sel: "select (out_start_logits out) (out_end_logits out) (out_p_mask out)
        (out_attention_mask out) m top_k hia mal = Inr (starts, ends, scores, m1)"
    and sp: "no_span_survives (out_word_ids out) (zip starts (zip ends scores))"
    by blast
  have loop: "spans_loop (out_words out) (out_word_ids out) (zip starts (zip ends scores)) [] = Inr []"
    using spans_loop_no_survivor [OF sp] .
  have "\<exists>m'. outputs_loop select outs top_k hia mal m1 [] = Inr (m', [])"
    using Cons.IH [of m1] Cons.prems by simp
  then show ?case using sel loop by simp
qed

text \<open>
  C10: with \<^verbatim>\<open>handle_impossible_answer\<close> off, when on every chunk the helper returns and
  every span it selects has a boundary token that belongs to no word, postprocessing
  returns the empty list: not a single record, and not an error.
\<close>

theorem postprocess_no_survivor_empty_list:
  assumes "\<forall>out \<in> set outs. \<forall>m. \<exists>starts ends scores m'.
      select (out_start_logits out) (out_end_logits out) (out_p_mask out)
        (out_attention_mask out) m top_k False mal = Inr (starts, ends, scores, m')
      \<and> no_span_survives (out_word_ids out) (zip starts (zip ends scores))"
  shows "postprocess select outs top_k False mal = Inr (Many [])"
proof -
  have "\<exists>m'. outputs_loop select outs top_k False mal 1000000 [] = Inr (m', [])"
    using assms by (rule outputs_loop_no_survivor)
  then obtain m' where
    "outputs_loop select outs top_k False mal 1000000 [] = Inr (m', [])" by blast
  then show ?thesis
    by (simp add: postprocess_def sorted_by_score_def slice_to_def)
qed

theorem postprocess_no_survivor_empty_list_witness:
  "select_cls (out_start_logits example_output_paris) (out_end_logits example_output_paris)
      (out_p_mask example_output_paris) (out_attention_mask example_output_paris) 1000000 1 False 15
     = Inr ([0], [0], [3], 1000000)
   \<and> no_span_survives (out_word_ids example_output_paris) [(0, 0, 3)]
   \<and> postprocess select_cls [example_output_paris] 1 False 15 = Inr (Many [])"
proof -
  have h: "\<forall>out \<in> set [example_output_paris]. \<forall>m. \<exists>starts ends scores m'.
      select_cls (out_start_logits out) (out_end_logits out) (out_p_mask out)
        (out_attention_mask out) m 1 False 15 = Inr (starts, ends, scores, m')
      \<and> no_span_survives (out_word_ids out) (zip starts (zip ends scores))"
    by (simp add: select_cls_def example_output_paris_def no_span_survives_def)
  have a: "select_cls (out_start_logits example_output_paris) (out_end_logits example_output_paris)
      (out_p_mask example_output_paris) (out_attention_mask example_output_paris) 1000000 1 False 15
     = Inr ([0], [0], [3], 1000000)"
    by (simp add: select_cls_def example_output_paris_def)
  have b: "no_span_survives (out_word_ids example_output_paris) [(0, 0, 3)]"
    by (simp add: example_output_paris_def no_span_survives_def)
  have c: "postprocess select_cls [example_output_paris] 1 False 15 = Inr (Many [])"
    using h by (rule postprocess_no_survivor_empty_list)
  from a b c show ?thesis by (intro conjI)
qed

section \<open>Results: the factory\<close>

text \<open>
  The statements of \<^verbatim>\<open>get_pipeline\<close> that precede the line that does not parse do resolve
  the defaults the way the specification says: a missing checkpoint becomes the built-in
  name; a missing revision becomes the pinned one exactly when the resolved checkpoint is
  the built-in one; and for the built-in checkpoint the tokenizer gets
  \<^verbatim>\<open>add_prefix_space=True\<close> and the model is the specialized wrapper. None of this can
  run, since the module does not compile.
\<close>

lemma get_pipeline_resolution_defaults:
  "res_checkpoint (get_pipeline_resolution cuda None revision device)
     = ''impira/layoutlm-document-qa''
   \<and> (res_revision (get_pipeline_resolution cuda checkpoint None device)
        = Some ''02daaaf614d4ae08fa6a1d51693baaf7de819585''
      \<longleftrightarrow> res_checkpoint (get_pipeline_resolution cuda checkpoint None device) = CHECKPOINT)
   \<and> res_revision (get_pipeline_resolution cuda checkpoint (Some r) device) = Some r
   \<and> (res_checkpoint (get_pipeline_resolution cuda checkpoint revision device) = CHECKPOINT
      \<longrightarrow> res_add_prefix_space (get_pipeline_resolution cuda checkpoint revision device)
            = Some True
        \<and> res_model (get_pipeline_resolution cuda checkpoint revision device)
            = LayoutLMForQuestionAnswering CHECKPOINT
                (res_revision (get_pipeline_resolution cuda checkpoint revision device)))"
  by (auto simp add: get_pipeline_resolution_def Let_def CHECKPOINT_def REVISION_def
      split: option.splits)

end
